theory Spec2Isabelle
  imports Complex_Main
begin

section \<open>Common vocabulary\<close>

text \<open>
  The Python sources compute with floats; durations are modelled as exact rationals, so
  every arithmetic law below is a law of rational arithmetic. File paths are strings.
  An exception is a value: every function that can raise returns \<open>exn + 'a\<close>, with
  \<open>Inl\<close> for the raised exception.
\<close>

type_synonym path = string

text \<open>
  A Python \<open>str\<close> whose characters matter is the list of its code points; \<open>py\<close> embeds a
  literal.
\<close>

type_synonym unicode = "nat list"

definition py :: "string \<Rightarrow> unicode" where
  "py s = map of_char s"

datatype exn =
    ValueError string
  | ZeroDivisionError
  | CalledProcessError
  | NameError string
  | OtherError string

section \<open>generate_video_single.py: the segment generator\<close>

text \<open>
  \<open>pattern\<close> is the literal of line 52: \<open>0\<close> is a stock-video slot, \<open>1\<close> an image slot.
\<close>

definition pattern :: "nat list" where
  "pattern = [0,0,0,0,1,0,0,0,0,1,0,0,0,0,1,0,0,0,0,1,0,0,0,0,1]"

text \<open>
  Everything the generator reads from outside is a field of \<open>render_env\<close>:
  \<open>path_exists\<close> is \<open>os.path.exists\<close>; \<open>probe_audio\<close> is the parsed output of ffprobe
  (\<open>None\<close> when ffprobe or \<open>float()\<close> raises); \<open>jitter p\<close> is the value
  \<open>random.uniform(-0.3, 0.3)\<close> drawn at pattern position \<open>p\<close>; \<open>render_ok p\<close> tells
  whether the ffmpeg run for the slot at position \<open>p\<close> succeeds. Creating the output
  directory and logging are left out.
\<close>

record render_env =
  path_exists :: "path \<Rightarrow> bool"
  probe_audio :: "path \<Rightarrow> rat option"
  jitter :: "nat \<Rightarrow> rat"
  render_ok :: "nat \<Rightarrow> bool"

text \<open>\<open>get_audio_duration\<close>: the bare \<open>except\<close> turns every failure into \<open>0.0\<close>.\<close>

definition get_audio_duration :: "render_env \<Rightarrow> path \<Rightarrow> rat" where
  "get_audio_duration env audio_path =
     (case probe_audio env audio_path of None \<Rightarrow> 0 | Some d \<Rightarrow> d)"

text \<open>
  Lines 55-60: with a narration file the per-clip duration is the audio duration over
  \<open>25.0\<close>, clamped; otherwise the parameter \<open>duration_per_clip\<close> (default \<open>2.5\<close>) stays.
  \<open>audio_path\<close> is \<open>Optional[str]\<close>; Python's \<open>audio_path and ...\<close> is false for
  \<open>None\<close> and for the empty string.
\<close>

definition clip_duration :: "render_env \<Rightarrow> path option \<Rightarrow> rat \<Rightarrow> rat" where
  "clip_duration env audio_path duration_per_clip =
     (case audio_path of
        None \<Rightarrow> duration_per_clip
      | Some p \<Rightarrow>
          if p \<noteq> [] \<and> path_exists env p
          then (let audio_duration = get_audio_duration env p;
                    optimal_duration = audio_duration / 25
                in max 2 (min (5/2) optimal_duration))
          else duration_per_clip)"

text \<open>Lines 83-84: the jittered duration of one slot, re-clamped.\<close>

definition segment_duration :: "render_env \<Rightarrow> rat \<Rightarrow> nat \<Rightarrow> rat" where
  "segment_duration env duration_per_clip position =
     max 2 (min 3 (duration_per_clip + jitter env position))"

text \<open>\<open>create_video_from_image\<close>, line 153: an image clip is rendered for at most 2.5s.\<close>

definition actual_duration :: "rat \<Rightarrow> rat" where
  "actual_duration duration = min duration (5/2)"

text \<open>
  The source returns the output paths of the rendered clips. The model keeps, for each
  output clip, what determined it: the pattern position (part of the file name), the
  slot type, the index and path of the asset it was rendered from, the slot duration,
  and the duration handed to ffmpeg's \<open>-t\<close>.
\<close>

record segment =
  seg_position :: nat
  seg_type :: nat
  seg_index :: nat
  seg_source :: path
  seg_duration :: rat
  seg_rendered :: rat

record gen_state =
  video_idx :: nat
  image_idx :: nat
  segments :: "segment list"

text \<open>
  One iteration of the loop of lines 80-127. In both branches the pool index is
  incremented after a successful render and in the \<open>except\<close> handler alike.
\<close>

definition slot_step ::
  "render_env \<Rightarrow> path list \<Rightarrow> path list \<Rightarrow> rat \<Rightarrow> gen_state \<Rightarrow> nat \<times> nat \<Rightarrow> gen_state" where
  "slot_step env images stock_videos duration_per_clip st slot =
     (let position = fst slot; segment_type = snd slot;
          d = segment_duration env duration_per_clip position
      in if segment_type = 0 then
           (if video_idx st < length stock_videos then
              (if render_ok env position
               then st\<lparr>segments := segments st @
                         [\<lparr>seg_position = position, seg_type = 0, seg_index = video_idx st,
                           seg_source = stock_videos ! video_idx st,
                           seg_duration = d, seg_rendered = d\<rparr>],
                       video_idx := video_idx st + 1\<rparr>
               else st\<lparr>video_idx := video_idx st + 1\<rparr>)
            else st)
         else if segment_type = 1 then
           (if image_idx st < length images then
              (if render_ok env position
               then st\<lparr>segments := segments st @
                         [\<lparr>seg_position = position, seg_type = 1, seg_index = image_idx st,
                           seg_source = images ! image_idx st,
                           seg_duration = d, seg_rendered = actual_duration d\<rparr>],
                       image_idx := image_idx st + 1\<rparr>
               else st\<lparr>image_idx := image_idx st + 1\<rparr>)
            else st)
         else st)"

definition run_slots ::
  "render_env \<Rightarrow> path list \<Rightarrow> path list \<Rightarrow> rat \<Rightarrow> gen_state \<Rightarrow> (nat \<times> nat) list \<Rightarrow> gen_state" where
  "run_slots env images stock_videos duration_per_clip st slots =
     foldl (slot_step env images stock_videos duration_per_clip) st slots"

definition init_state :: gen_state where
  "init_state = \<lparr>video_idx = 0, image_idx = 0, segments = []\<rparr>"

definition generate_single_video ::
  "render_env \<Rightarrow> path list \<Rightarrow> path list \<Rightarrow> path option \<Rightarrow> rat \<Rightarrow> segment list" where
  "generate_single_video env images stock_videos audio_path duration_per_clip =
     segments (run_slots env images stock_videos
                 (clip_duration env audio_path duration_per_clip)
                 init_state (enumerate 0 pattern))"

text \<open>The asset indices that the output clips of one slot type were rendered from.\<close>

definition used_assets :: "nat \<Rightarrow> segment list \<Rightarrow> nat list" where
  "used_assets ty segs = map seg_index (filter (\<lambda>s. seg_type s = ty) segs)"

text \<open>
  \<open>state_before k\<close> is the loop state when iteration \<open>k\<close> of a call of
  \<open>generate_single_video\<close> starts (after the slots \<open>0..k-1\<close>).
\<close>

definition state_before ::
  "render_env \<Rightarrow> path list \<Rightarrow> path list \<Rightarrow> path option \<Rightarrow> rat \<Rightarrow> nat \<Rightarrow> gen_state" where
  "state_before env images stock_videos audio_path duration_per_clip k =
     run_slots env images stock_videos (clip_duration env audio_path duration_per_clip)
       init_state (take k (enumerate 0 pattern))"

text \<open>
  The loop invariant of the two pools: every asset index already rendered into an
  output clip lies below the pool's current index, and no index occurs twice.
\<close>

definition pool_inv :: "gen_state \<Rightarrow> bool" where
  "pool_inv st \<longleftrightarrow>
     (\<forall>i \<in> set (used_assets 0 (segments st)). i < video_idx st) \<and>
     (\<forall>i \<in> set (used_assets 1 (segments st)). i < image_idx st) \<and>
     distinct (used_assets 0 (segments st)) \<and> distinct (used_assets 1 (segments st))"

text \<open>A concrete run: three stock clips, one image, the render at position 1 fails.\<close>

definition demo_render_env :: render_env where
  "demo_render_env =
     \<lparr>path_exists = (\<lambda>p. p = ''narration.mp3''),
      probe_audio = (\<lambda>p. if p = ''narration.mp3'' then Some 62 else None),
      jitter = (\<lambda>p. if even p then 1/10 else - 3/10),
      render_ok = (\<lambda>p. p \<noteq> 1)\<rparr>"

section \<open>generate_video_final.py: concatenation and narration merge\<close>

text \<open>
  An ffmpeg command line is the list the source builds. Literal arguments are \<open>A\<close>,
  paths passed in by the caller are \<open>P\<close>; the computed arguments keep their structure
  instead of their formatted text: \<open>SetptsFps f\<close> is \<open>setpts={f}*PTS,fps=30\<close>, \<open>FilterComplex\<close>
  is the joined cross-fade graph, \<open>MapLabel\<close> the mapped output pad.
\<close>

datatype label = V nat | Vout nat

datatype filter_part =
    ScaleCrop nat
  | Xfade label label rat rat label

datatype arg =
    A string
  | P path
  | SetptsFps rat
  | FilterComplex "filter_part list"
  | MapLabel label
  | Drawtexts "(unicode \<times> rat \<times> rat) list"
  | DrawtextAfter unicode rat

text \<open>
  What a function does to the outside world is a list of effects, in order. \<open>outcome\<close>
  tells whether performing an effect raises (\<open>Some e\<close>) or completes (\<open>None\<close>);
  \<open>Run\<close> is \<open>subprocess.run(cmd, check=True)\<close>.
\<close>

datatype effect =
    Run "arg list"
  | Copy path path
  | WriteList path "path list"
  | Unlink path
  | Rename path path
  | Remove path
  | Mkdir path

record final_env =
  outcome :: "effect \<Rightarrow> exn option"
  file_exists :: "path \<Rightarrow> bool"
  probe :: "path \<Rightarrow> rat option"
  sibling :: "path \<Rightarrow> string \<Rightarrow> path"
  timestamp :: string

type_synonym 'a io = "effect list \<times> (exn + 'a)"

text \<open>Perform one effect, then continue with \<open>k\<close> unless it raised.\<close>

definition and_then :: "final_env \<Rightarrow> effect \<Rightarrow> 'a io \<Rightarrow> 'a io" where
  "and_then env eff k =
     (case outcome env eff of
        Some e \<Rightarrow> ([eff], Inl e)
      | None \<Rightarrow> (eff # fst k, snd k))"

text \<open>Python's float division raises on a zero divisor.\<close>

definition py_div :: "rat \<Rightarrow> rat \<Rightarrow> exn + rat" where
  "py_div a b = (if b = 0 then Inl ZeroDivisionError else Inr (a / b))"

definition get_video_duration :: "final_env \<Rightarrow> path \<Rightarrow> rat" where
  "get_video_duration env video_path =
     (case probe env video_path of None \<Rightarrow> 0 | Some d \<Rightarrow> d)"

definition final_get_audio_duration :: "final_env \<Rightarrow> path \<Rightarrow> rat" where
  "final_get_audio_duration env audio_path =
     (case probe env audio_path of None \<Rightarrow> 0 | Some d \<Rightarrow> d)"

definition transition_duration :: rat where
  "transition_duration = 3/10"

text \<open>Lines 173-183: one scale/crop chain per input, then the chain of cross-fades.\<close>

definition filter_parts :: "nat \<Rightarrow> filter_part list" where
  "filter_parts n =
     map ScaleCrop [0..<n] @
     map (\<lambda>i. if i = 1 then Xfade (V 0) (V i) transition_duration 0 (Vout i)
               else Xfade (Vout (i - 1)) (V i) transition_duration 0 (Vout i)) [1..<n]"

definition xfade_cmd :: "path list \<Rightarrow> path \<Rightarrow> arg list" where
  "xfade_cmd video_paths output_path =
     [A ''ffmpeg''] @ concat (map (\<lambda>video_path. [A ''-i'', P video_path]) video_paths) @
     [A ''-filter_complex'', FilterComplex (filter_parts (length video_paths)),
      A ''-map'', MapLabel (if length video_paths > 1 then Vout (length video_paths - 1) else V 0),
      A ''-c:v'', A ''libx264'', A ''-preset'', A ''medium'', A ''-crf'', A ''23'',
      A ''-r'', A ''30'', A ''-pix_fmt'', A ''yuv420p'', A ''-y'', P output_path]"

definition simple_concat_cmd :: "path \<Rightarrow> path \<Rightarrow> arg list" where
  "simple_concat_cmd concat_file output_path =
     [A ''ffmpeg'', A ''-f'', A ''concat'', A ''-safe'', A ''0'', A ''-i'', P concat_file,
      A ''-c:v'', A ''libx264'', A ''-preset'', A ''fast'', A ''-crf'', A ''23'',
      A ''-r'', A ''30'', A ''-c:a'', A ''aac'', A ''-y'', P output_path]"

definition concat_cmd :: "path \<Rightarrow> path \<Rightarrow> arg list" where
  "concat_cmd concat_file output_path =
     [A ''ffmpeg'', A ''-f'', A ''concat'', A ''-safe'', A ''0'', A ''-i'', P concat_file,
      A ''-c:v'', A ''libx264'', A ''-preset'', A ''fast'', A ''-crf'', A ''23'',
      A ''-c:a'', A ''aac'', A ''-b:a'', A ''192k'', A ''-y'', P output_path]"

definition concatenate_videos_simple :: "final_env \<Rightarrow> path list \<Rightarrow> path \<Rightarrow> path io" where
  "concatenate_videos_simple env video_paths output_path =
     (let concat_file = sibling env output_path ''concat_list_simple.txt''
      in and_then env (WriteList concat_file video_paths)
           (and_then env (Run (simple_concat_cmd concat_file output_path))
              (and_then env (Unlink concat_file) ([], Inr output_path))))"

text \<open>
  Lines 149-212. Building the filter graph cannot raise; the run can, and the handler
  \<open>except Exception\<close> then returns whatever \<open>concatenate_videos_simple\<close> returns.
\<close>

definition concatenate_with_smooth_transitions :: "final_env \<Rightarrow> path list \<Rightarrow> path \<Rightarrow> path io" where
  "concatenate_with_smooth_transitions env video_paths output_path =
     (if length video_paths = 1
      then and_then env (Copy (video_paths ! 0) output_path) ([], Inr output_path)
      else (case outcome env (Run (xfade_cmd video_paths output_path)) of
              None \<Rightarrow> ([Run (xfade_cmd video_paths output_path)], Inr output_path)
            | Some e \<Rightarrow>
                (Run (xfade_cmd video_paths output_path)
                   # fst (concatenate_videos_simple env video_paths output_path),
                 snd (concatenate_videos_simple env video_paths output_path))))"

text \<open>
  Lines 83-146. The handler of the outer \<open>try\<close> re-raises, so an exception of the
  body is the exception of the call. \<open>concat_file.exists()\<close> is read from the
  environment before the unlink.
\<close>

definition concatenate_videos :: "final_env \<Rightarrow> path list \<Rightarrow> path \<Rightarrow> bool \<Rightarrow> path io" where
  "concatenate_videos env video_paths output_path with_transitions =
     (if video_paths = [] then ([], Inl (ValueError ''No videos to concatenate''))
      else if length video_paths = 1
      then and_then env (Copy (video_paths ! 0) output_path) ([], Inr output_path)
      else (let concat_file = sibling env output_path ''concat_list.txt''
            in and_then env (WriteList concat_file video_paths)
                 (if with_transitions \<and> length video_paths \<le> 10
                  then concatenate_with_smooth_transitions env video_paths output_path
                  else and_then env (Run (concat_cmd concat_file output_path))
                         (if file_exists env concat_file
                          then and_then env (Unlink concat_file) ([], Inr output_path)
                          else ([], Inr output_path)))))"

text \<open>Lines 264-316: the command chosen by \<open>add_audio_to_video\<close>.\<close>

definition merge_cmd :: "rat \<Rightarrow> rat \<Rightarrow> path \<Rightarrow> path \<Rightarrow> path \<Rightarrow> string \<Rightarrow> exn + arg list" where
  "merge_cmd video_duration audio_duration video_path audio_path output_path mix_mode =
     (if mix_mode = ''replace'' then
        (if \<bar>video_duration - audio_duration\<bar> > 2 then
           (case py_div video_duration audio_duration of
              Inl e \<Rightarrow> Inl e
            | Inr speed_factor \<Rightarrow>
                Inr [A ''ffmpeg'', A ''-i'', P video_path, A ''-i'', P audio_path,
                     A ''-filter:v'', SetptsFps speed_factor,
                     A ''-c:v'', A ''libx264'', A ''-preset'', A ''fast'', A ''-crf'', A ''23'',
                     A ''-c:a'', A ''aac'', A ''-b:a'', A ''192k'',
                     A ''-map'', A ''0:v:0'', A ''-map'', A ''1:a:0'',
                     A ''-shortest'', A ''-y'', P output_path])
         else
           Inr [A ''ffmpeg'', A ''-i'', P video_path, A ''-i'', P audio_path,
                A ''-c:v'', A ''copy'', A ''-c:a'', A ''aac'', A ''-b:a'', A ''192k'',
                A ''-map'', A ''0:v:0'', A ''-map'', A ''1:a:0'',
                A ''-shortest'', A ''-y'', P output_path])
      else
        Inr [A ''ffmpeg'', A ''-i'', P video_path, A ''-i'', P audio_path,
             A ''-filter_complex'', A ''[0:a][1:a]amix=inputs=2:duration=shortest[aout]'',
             A ''-c:v'', A ''copy'', A ''-map'', A ''0:v:0'', A ''-map'', A ''[aout]'',
             A ''-y'', P output_path])"

definition add_audio_to_video :: "final_env \<Rightarrow> path \<Rightarrow> path \<Rightarrow> path \<Rightarrow> string \<Rightarrow> path io" where
  "add_audio_to_video env video_path audio_path output_path mix_mode =
     (let video_duration = get_video_duration env video_path;
          audio_duration = final_get_audio_duration env audio_path
      in case merge_cmd video_duration audio_duration video_path audio_path output_path mix_mode of
           Inl e \<Rightarrow> ([], Inl e)
         | Inr cmd \<Rightarrow> and_then env (Run cmd) ([], Inr output_path))"

text \<open>
  The speed factors a command applies to the video timestamps, and the arguments by
  which ffmpeg would filter or retime the audio stream.
\<close>

definition speed_factors :: "arg list \<Rightarrow> rat list" where
  "speed_factors cmd = concat (map (\<lambda>a. case a of SetptsFps f \<Rightarrow> [f] | _ \<Rightarrow> []) cmd)"

definition audio_filtered :: "arg list \<Rightarrow> bool" where
  "audio_filtered cmd \<longleftrightarrow>
     A ''-filter:a'' \<in> set cmd \<or> A ''-af'' \<in> set cmd \<or> A ''-filter_complex'' \<in> set cmd"


text \<open>Whether a trace contains a run of a cross-fade graph.\<close>

definition is_crossfade :: "effect \<Rightarrow> bool" where
  "is_crossfade eff =
     (case eff of
        Run cmd \<Rightarrow> list_ex (\<lambda>a. case a of FilterComplex ps \<Rightarrow> True | _ \<Rightarrow> False) cmd
      | _ \<Rightarrow> False)"


text \<open>
  Lines 17-80 of \<open>generate_final_video\<close>. \<open>existing p\<close> is the test
  \<open>p and os.path.exists(p)\<close> on an optional path, as the list of the paths that pass
  it. The outer handler re-raises.
\<close>

definition existing :: "final_env \<Rightarrow> path option \<Rightarrow> path list" where
  "existing env p =
     (case p of
        None \<Rightarrow> []
      | Some q \<Rightarrow> if q \<noteq> [] \<and> file_exists env q then [q] else [])"

definition generate_final_video ::
  "final_env \<Rightarrow> path option \<Rightarrow> path list \<Rightarrow> path option \<Rightarrow> path option \<Rightarrow> string option \<Rightarrow> path io" where
  "generate_final_video env intro_video segs audio_path outro_video output_filename =
     and_then env (Mkdir ''videos'')
       (let output_path = ''videos/'' @
              (case output_filename of
                 None \<Rightarrow> ''final_video_'' @ timestamp env @ ''.mp4''
               | Some f \<Rightarrow> f);
            all_segments = existing env intro_video @ segs @ existing env outro_video;
            concat_video = ''videos/temp_concat_'' @ timestamp env @ ''.mp4'';
            c = concatenate_videos env all_segments concat_video True
        in case snd c of
             Inl e \<Rightarrow> (fst c, Inl e)
           | Inr _ \<Rightarrow>
               (let m = (case existing env audio_path of
                           a # _ \<Rightarrow> add_audio_to_video env concat_video a output_path ''replace''
                         | [] \<Rightarrow> and_then env (Rename concat_video output_path) ([], Inr output_path))
                in case snd m of
                     Inl e \<Rightarrow> (fst c @ fst m, Inl e)
                   | Inr final_path \<Rightarrow>
                       (if file_exists env concat_video \<and> concat_video \<noteq> final_path
                        then (fst c @ fst m @ fst (and_then env (Remove concat_video) ([], Inr final_path)),
                              snd (and_then env (Remove concat_video) ([], Inr final_path)))
                        else (fst c @ fst m, Inr final_path))))"

text \<open>An environment in which every effect completes; the probe is a parameter.\<close>

definition calm_env :: "(path \<Rightarrow> rat option) \<Rightarrow> final_env" where
  "calm_env pr =
     \<lparr>outcome = (\<lambda>eff. None), file_exists = (\<lambda>p. True), probe = pr,
      sibling = (\<lambda>p name. ''videos/'' @ name), timestamp = ''20260101_000000''\<rparr>"

text \<open>The probe that always fails.\<close>

definition no_probe :: "path \<Rightarrow> rat option" where
  "no_probe p = None"

section \<open>video_engagement.py: overlay points and burn-in\<close>

text \<open>
  A text point is the dictionary \<open>{"text": ..., "start": ..., "duration": ...}\<close> that
  \<open>generate_engagement_points\<close> builds and the pipeline hands to the burn-in; all three
  keys are always present.
\<close>

record overlay_point =
  pt_text :: unicode
  pt_start :: rat
  pt_duration :: rat

text \<open>
  \<open>content.split('.')\<close>: the pieces between the dots (code point 46), empty pieces
  included; the result is never the empty list. \<open>join_dot\<close> is \<open>'.'.join\<close>, its inverse.
\<close>

fun split_dot :: "unicode \<Rightarrow> unicode list" where
  "split_dot [] = [[]]"
| "split_dot (c # cs) =
     (if c = 46 then [] # split_dot cs
      else (case split_dot cs of [] \<Rightarrow> [[c]] | w # ws \<Rightarrow> (c # w) # ws))"

fun join_dot :: "unicode list \<Rightarrow> unicode" where
  "join_dot [] = []"
| "join_dot [w] = w"
| "join_dot (w # v # ws) = w @ 46 # join_dot (v # ws)"

text \<open>
  \<open>str.strip()\<close> removes leading and trailing whitespace: the code points for which
  \<open>str.isspace\<close> holds, which are U+0009 to U+000D, U+001C to U+0020, U+0085, U+00A0,
  U+1680, U+2000 to U+200A, U+2028, U+2029, U+202F, U+205F and U+3000.
\<close>

definition is_space :: "nat \<Rightarrow> bool" where
  "is_space c \<longleftrightarrow>
     (9 \<le> c \<and> c \<le> 13) \<or> (28 \<le> c \<and> c \<le> 32) \<or> c = 133 \<or> c = 160 \<or> c = 5760 \<or>
     (8192 \<le> c \<and> c \<le> 8202) \<or> c = 8232 \<or> c = 8233 \<or> c = 8239 \<or> c = 8287 \<or> c = 12288"

definition strip :: "unicode \<Rightarrow> unicode" where
  "strip s = rev (dropWhile is_space (rev (dropWhile is_space s)))"

definition key_phrases :: "unicode \<Rightarrow> unicode list" where
  "key_phrases content =
     (let sentences = take 5 (split_dot content)
      in map (\<lambda>s. take 50 (strip s)) (filter (\<lambda>s. strip s \<noteq> []) sentences))"

text \<open>Lines 347-368. The divisor is at least 1.\<close>

definition generate_engagement_points :: "rat \<Rightarrow> unicode \<Rightarrow> overlay_point list" where
  "generate_engagement_points video_duration content =
     (let interval = video_duration / of_nat (length (key_phrases content) + 1)
      in map (\<lambda>(i, phrase). \<lparr>pt_text = phrase, pt_start = interval * of_nat (i + 1), pt_duration = 2\<rparr>)
           (enumerate 0 (key_phrases content)))"

text \<open>
  The three chained \<open>replace\<close> calls that delete single quotes (39), exclamation marks
  (33) and colons (58).
\<close>

definition clean :: "unicode \<Rightarrow> unicode" where
  "clean t = filter (\<lambda>c. c \<noteq> 39 \<and> c \<noteq> 33 \<and> c \<noteq> 58) t"

definition overlay_cmd :: "path \<Rightarrow> overlay_point list \<Rightarrow> path \<Rightarrow> arg list" where
  "overlay_cmd video_path text_points output_path =
     [A ''ffmpeg'', A ''-i'', P video_path, A ''-vf'',
      Drawtexts (map (\<lambda>point. (clean (pt_text point), pt_start point,
                               pt_start point + pt_duration point)) text_points),
      A ''-c:v'', A ''libx264'', A ''-c:a'', A ''copy'', A ''-y'', P output_path]"

text \<open>
  Lines 175-224. The only handler is \<open>except subprocess.CalledProcessError\<close>: it returns
  the input path; any other exception of the run leaves the function.
\<close>

definition add_text_overlay_intervals ::
  "final_env \<Rightarrow> path \<Rightarrow> overlay_point list \<Rightarrow> path \<Rightarrow> path io" where
  "add_text_overlay_intervals env video_path text_points output_path =
     (case outcome env (Run (overlay_cmd video_path text_points output_path)) of
        None \<Rightarrow> ([Run (overlay_cmd video_path text_points output_path)], Inr output_path)
      | Some e \<Rightarrow>
          if e = CalledProcessError
          then ([Run (overlay_cmd video_path text_points output_path)], Inr video_path)
          else ([Run (overlay_cmd video_path text_points output_path)], Inl e))"

text \<open>The optimizer's own \<open>get_video_duration\<close> defaults to 30.0 when the probe fails.\<close>

definition optimizer_get_video_duration :: "final_env \<Rightarrow> path \<Rightarrow> rat" where
  "optimizer_get_video_duration env video_path =
     (case probe env video_path of None \<Rightarrow> 30 | Some d \<Rightarrow> d)"

definition cta_cmd :: "final_env \<Rightarrow> path \<Rightarrow> unicode \<Rightarrow> path \<Rightarrow> arg list" where
  "cta_cmd env video_path cta_text output_path =
     [A ''ffmpeg'', A ''-i'', P video_path, A ''-vf'',
      DrawtextAfter (clean cta_text) (optimizer_get_video_duration env video_path - 5),
      A ''-c:v'', A ''libx264'', A ''-c:a'', A ''copy'', A ''-y'', P output_path]"

text \<open>Lines 264-302, with the same single handler.\<close>

definition add_call_to_action :: "final_env \<Rightarrow> path \<Rightarrow> unicode \<Rightarrow> path \<Rightarrow> path io" where
  "add_call_to_action env video_path cta_text output_path =
     (case outcome env (Run (cta_cmd env video_path cta_text output_path)) of
        None \<Rightarrow> ([Run (cta_cmd env video_path cta_text output_path)], Inr output_path)
      | Some e \<Rightarrow>
          if e = CalledProcessError
          then ([Run (cta_cmd env video_path cta_text output_path)], Inr video_path)
          else ([Run (cta_cmd env video_path cta_text output_path)], Inl e))"

text \<open>An environment in which ffmpeg cannot be started: every run raises an \<open>OSError\<close>.\<close>

definition no_ffmpeg_env :: final_env where
  "no_ffmpeg_env = (calm_env no_probe)\<lparr>outcome :=
      (\<lambda>eff. case eff of Run cmd \<Rightarrow> Some (OtherError ''FileNotFoundError'') | _ \<Rightarrow> None)\<rparr>"

text \<open>One overlay point, as the pipeline passes it.\<close>

definition demo_points :: "overlay_point list" where
  "demo_points = [\<lparr>pt_text = py ''Great sound!'', pt_start = 20, pt_duration = 2\<rparr>]"

text \<open>
  A content of eight dot-separated pieces: one with leading blanks, a blank one, one
  longer than 50 characters, and five short ones.
\<close>

definition demo_content :: unicode where
  "demo_content =
     py ''  Great sound. . Long battery life and a very comfortable fit for all-day listening.B.C.D.E.F''"

section \<open>generate_image.py: the image provider chain\<close>

datatype provider = Pexels | Unsplash | HuggingFace | Stability | DallE | Placeholder

text \<open>
  The observable steps of resolving one image: a provider function is called, an HTTP
  request is posted to the Hugging Face endpoint, the process sleeps for some seconds.
\<close>

datatype event = Call provider | Post | Sleep nat

datatype http = Status nat | Raised exn

text \<open>
  \<open>has_key p\<close> tells whether the provider's API key is set in the process environment;
  \<open>fetch p i\<close> is the outcome of the provider function for image \<open>i\<close> (\<open>None\<close>: it returns
  the output path); \<open>hf_post i a\<close> is the outcome of the \<open>a\<close>-th request for image \<open>i\<close>;
  \<open>hf_save i\<close> the outcome of writing the response body; \<open>placeholder_retry i\<close> the
  outcome of the second placeholder call, made in the outer handler.
\<close>

record image_env =
  has_key :: "provider \<Rightarrow> bool"
  fetch :: "provider \<Rightarrow> nat \<Rightarrow> exn option"
  hf_post :: "nat \<Rightarrow> nat \<Rightarrow> http"
  hf_save :: "nat \<Rightarrow> exn option"
  placeholder_retry :: "nat \<Rightarrow> exn option"
  image_path :: "nat \<Rightarrow> path"

definition max_retries :: nat where
  "max_retries = 3"

text \<open>
  Lines 211-222, the loop \<open>for attempt in range(max_retries)\<close> with \<open>left\<close> iterations
  to go. A 503 sleeps 20 seconds and continues; another status than 200 raises; 200
  breaks. When the iterations run out the loop simply ends.
\<close>

fun hf_attempts :: "image_env \<Rightarrow> nat \<Rightarrow> nat \<Rightarrow> nat \<Rightarrow> event list \<times> exn option" where
  "hf_attempts env i attempt 0 = ([], None)"
| "hf_attempts env i attempt (Suc left) =
     (case hf_post env i attempt of
        Raised e \<Rightarrow> ([Post], Some e)
      | Status code \<Rightarrow>
          if code = 503
          then (Post # Sleep 20 # fst (hf_attempts env i (Suc attempt) left),
                snd (hf_attempts env i (Suc attempt) left))
          else if code \<noteq> 200
          then ([Post], Some (OtherError ''API returned status code''))
          else ([Post], None))"

text \<open>Lines 189-233: the result is \<open>None\<close> when the function returns the output path.\<close>

definition generate_with_huggingface :: "image_env \<Rightarrow> nat \<Rightarrow> event list \<times> exn option" where
  "generate_with_huggingface env i =
     (if \<not> has_key env HuggingFace
      then ([], Some (ValueError ''HUGGINGFACE_API_KEY not set''))
      else (case snd (hf_attempts env i 0 max_retries) of
              Some e \<Rightarrow> (fst (hf_attempts env i 0 max_retries), Some e)
            | None \<Rightarrow> (fst (hf_attempts env i 0 max_retries), hf_save env i)))"

text \<open>
  One guarded provider block of \<open>generate_images\<close>: skipped when an image is already
  there or the provider is not enabled; otherwise the provider is called and its
  exception, if any, is swallowed. The state is the events so far and whether
  \<open>img_path\<close> is set.
\<close>

definition attempt :: "bool \<Rightarrow> provider \<Rightarrow> event list \<times> exn option \<Rightarrow> event list \<times> bool \<Rightarrow> event list \<times> bool" where
  "attempt enabled p call st =
     (if snd st \<or> \<not> enabled then st
      else (fst st @ Call p # fst call, snd call = None))"

text \<open>
  Lines 47-105 for one image. \<open>generate_with_stability\<close> and \<open>generate_with_dalle\<close> are
  not defined anywhere in the module, so calling them raises \<open>NameError\<close>. An exception
  of the placeholder reaches the outer handler, which calls the placeholder once more
  and skips the image when that raises too.
\<close>

definition resolve_image :: "image_env \<Rightarrow> nat \<Rightarrow> event list \<times> path option" where
  "resolve_image env i =
     (let s1 = attempt (has_key env Pexels) Pexels ([], fetch env Pexels i) ([], False);
          s2 = attempt True Unsplash ([], fetch env Unsplash i) s1;
          s3 = attempt (has_key env HuggingFace) HuggingFace (generate_with_huggingface env i) s2;
          s4 = attempt (has_key env Stability) Stability
                 ([], Some (NameError ''generate_with_stability'')) s3;
          s5 = attempt (has_key env DallE) DallE
                 ([], Some (NameError ''generate_with_dalle'')) s4
      in if snd s5 then (fst s5, Some (image_path env i))
         else (case fetch env Placeholder i of
                 None \<Rightarrow> (fst s5 @ [Call Placeholder], Some (image_path env i))
               | Some e \<Rightarrow>
                   (case placeholder_retry env i of
                      None \<Rightarrow> (fst s5 @ [Call Placeholder, Call Placeholder], Some (image_path env i))
                    | Some e' \<Rightarrow> (fst s5 @ [Call Placeholder, Call Placeholder], None))))"

text \<open>
  \<open>generate_images\<close>: the loop over \<open>range(count)\<close>. Both handlers catch every
  exception, so the call always returns the list of the images it obtained.
\<close>

fun images_loop :: "image_env \<Rightarrow> nat list \<Rightarrow> event list \<times> path list" where
  "images_loop env [] = ([], [])"
| "images_loop env (i # is) =
     (fst (resolve_image env i) @ fst (images_loop env is),
      (case snd (resolve_image env i) of None \<Rightarrow> [] | Some p \<Rightarrow> [p]) @ snd (images_loop env is))"

definition generate_images :: "image_env \<Rightarrow> nat \<Rightarrow> event list \<times> (exn + path list)" where
  "generate_images env count =
     (fst (images_loop env [0..<count]), Inr (snd (images_loop env [0..<count])))"

text \<open>
  The number of requests posted, the providers called, in order, and the providers a run
  may use before the placeholder.
\<close>

definition posts :: "event list \<Rightarrow> nat" where
  "posts evs = length (filter (\<lambda>ev. ev = Post) evs)"


definition calls :: "event list \<Rightarrow> provider list" where
  "calls evs = concat (map (\<lambda>ev. case ev of Call p \<Rightarrow> [p] | _ \<Rightarrow> []) evs)"

definition enabled :: "image_env \<Rightarrow> provider \<Rightarrow> bool" where
  "enabled env p = (p = Unsplash \<or> (p \<noteq> Placeholder \<and> has_key env p))"

definition chain :: "image_env \<Rightarrow> provider list" where
  "chain env = filter (enabled env) [Pexels, Unsplash, HuggingFace, Stability, DallE]"

text \<open>An environment with every key set in which every provider and the placeholder raise.\<close>

definition all_failing_env :: image_env where
  "all_failing_env =
     \<lparr>has_key = (\<lambda>p. True),
      fetch = (\<lambda>p i. Some (OtherError ''provider failed'')),
      hf_post = (\<lambda>i a. if a < 2 then Status 503 else Status 500),
      hf_save = (\<lambda>i. None),
      placeholder_retry = (\<lambda>i. Some (OtherError ''PIL not installed'')),
      image_path = (\<lambda>i. ''assets/image.png'')\<rparr>"

text \<open>
  An environment without API keys in which Unsplash fails and the placeholder works.
\<close>

definition placeholder_env :: image_env where
  "placeholder_env =
     \<lparr>has_key = (\<lambda>p. False),
      fetch = (\<lambda>p i. if p = Placeholder then None else Some (OtherError ''provider failed'')),
      hf_post = (\<lambda>i a. Status 200),
      hf_save = (\<lambda>i. None),
      placeholder_retry = (\<lambda>i. None),
      image_path = (\<lambda>i. if i = 0 then ''assets/image_1.png'' else ''assets/image_2.png'')\<rparr>"



definition probe_zero :: "path \<Rightarrow> rat option" where
  "probe_zero p = (if p = ''narration.mp3'' then Some 0 else Some 54)"


definition ffmpeg_fails_env :: final_env where
  "ffmpeg_fails_env = (calm_env no_probe)\<lparr>outcome :=
      (\<lambda>eff. case eff of Run cmd \<Rightarrow> Some CalledProcessError | _ \<Rightarrow> None)\<rparr>"


text \<open>A generator environment whose narration probe reports 0.\<close>

definition mute_render_env :: render_env where
  "mute_render_env =
     \<lparr>path_exists = (\<lambda>p. True), probe_audio = (\<lambda>p. Some 0),
      jitter = (\<lambda>p. 0), render_ok = (\<lambda>p. True)\<rparr>"

section \<open>Properties of the segment generator\<close>

lemma clip_duration_audio:
  "p \<noteq> [] \<Longrightarrow> path_exists env p \<Longrightarrow>
   clip_duration env (Some p) dflt = max 2 (min (5/2) (get_audio_duration env p / of_nat (length pattern)))"
  by (simp add: clip_duration_def pattern_def Let_def)

lemma segment_duration_range:
  "2 \<le> segment_duration env dpc pos \<and> segment_duration env dpc pos \<le> 3"
  by (simp add: segment_duration_def)

lemma segment_duration_near:
  assumes "2 \<le> dpc" "dpc \<le> 5/2" "\<bar>jitter env pos\<bar> \<le> 3/10"
  shows "\<bar>segment_duration env dpc pos - dpc\<bar> \<le> 3/10"
  using assms unfolding segment_duration_def by (simp add: max_def min_def abs_if split: if_splits)

lemma slot_step_segments:
  "segments (slot_step env images stock dpc st slot) = segments st \<or>
   (\<exists>s. segments (slot_step env images stock dpc st slot) = segments st @ [s] \<and>
        seg_position s = fst slot \<and>
        seg_duration s = segment_duration env dpc (fst slot))"
  by (simp add: slot_step_def Let_def)

lemma run_slots_durations:
  "(\<forall>s \<in> set (segments st). seg_duration s = segment_duration env dpc (seg_position s)) \<Longrightarrow>
   \<forall>s \<in> set (segments (run_slots env images stock dpc st slots)).
      seg_duration s = segment_duration env dpc (seg_position s)"
  unfolding run_slots_def
proof (induction slots arbitrary: st)
  case Nil then show ?case by simp
next
  case (Cons a slots)
  have "\<forall>s \<in> set (segments (slot_step env images stock dpc st a)). seg_duration s = segment_duration env dpc (seg_position s)"
    using slot_step_segments[of env images stock dpc st a] Cons.prems by auto
  from Cons.IH[OF this] show ?case by simp
qed

text \<open>
  Claim C2. With a narration file, the per-clip duration is the audio duration divided by
  the pattern length, clamped to \<open>[2.0, 2.5]\<close>; every output clip's duration is that
  value plus the jitter drawn for its slot (at most 0.3 in absolute value), clamped
  again, so it differs from the per-clip value by at most 0.3 and lies in \<open>[2.0, 3.0]\<close>.
\<close>

theorem slot_duration_in_range:
  assumes "p \<noteq> []" "path_exists env p" "\<forall>pos. \<bar>jitter env pos\<bar> \<le> 3/10"
  shows "clip_duration env (Some p) dflt
           = max 2 (min (5/2) (get_audio_duration env p / of_nat (length pattern)))
       \<and> 2 \<le> clip_duration env (Some p) dflt \<and> clip_duration env (Some p) dflt \<le> 5/2
       \<and> (\<forall>s \<in> set (generate_single_video env images stock_videos (Some p) dflt).
            seg_duration s = max 2 (min 3 (clip_duration env (Some p) dflt + jitter env (seg_position s)))
          \<and> \<bar>seg_duration s - clip_duration env (Some p) dflt\<bar> \<le> 3/10
          \<and> 2 \<le> seg_duration s \<and> seg_duration s \<le> 3)"
proof -
  let ?b = "clip_duration env (Some p) dflt"
  have b: "?b = max 2 (min (5/2) (get_audio_duration env p / of_nat (length pattern)))"
    using assms(1,2) by (rule clip_duration_audio)
  have r: "2 \<le> ?b \<and> ?b \<le> 5/2" unfolding b by (simp add: max_def min_def)
  have d: "\<forall>s \<in> set (generate_single_video env images stock_videos (Some p) dflt).
      seg_duration s = segment_duration env ?b (seg_position s)"
    unfolding generate_single_video_def
    by (rule run_slots_durations) (simp add: init_state_def)
  show ?thesis
  proof (intro conjI ballI)
    show "?b = max 2 (min (5/2) (get_audio_duration env p / of_nat (length pattern)))" by (rule b)
    show "2 \<le> ?b" using r by simp
    show "?b \<le> 5/2" using r by simp
  next
    fix s assume s: "s \<in> set (generate_single_video env images stock_videos (Some p) dflt)"
    with d have e: "seg_duration s = segment_duration env ?b (seg_position s)" by blast
    show "seg_duration s = max 2 (min 3 (?b + jitter env (seg_position s)))"
      using e by (simp add: segment_duration_def)
    show "\<bar>seg_duration s - ?b\<bar> \<le> 3/10"
      unfolding e using r assms(3) by (intro segment_duration_near) auto
    show "2 \<le> seg_duration s" unfolding e using segment_duration_range by blast
    show "seg_duration s \<le> 3" unfolding e using segment_duration_range by blast
  qed
qed

theorem slot_duration_in_range_witness:
  "clip_duration demo_render_env (Some ''narration.mp3'') (5/2) = 62/25
   \<and> map seg_position (generate_single_video demo_render_env [''i0.png'']
          [''v0.mp4'', ''v1.mp4'', ''v2.mp4''] (Some ''narration.mp3'') (5/2)) = [0, 2, 4]
   \<and> list_all (\<lambda>s. 2 \<le> seg_duration s \<and> seg_duration s \<le> 3)
        (generate_single_video demo_render_env [''i0.png'']
          [''v0.mp4'', ''v1.mp4'', ''v2.mp4''] (Some ''narration.mp3'') (5/2))"
proof -
  have a: "''narration.mp3'' \<noteq> []" by simp
  have b: "path_exists demo_render_env ''narration.mp3''" by (simp add: demo_render_env_def)
  have c: "\<forall>pos. \<bar>jitter demo_render_env pos\<bar> \<le> 3/10" by (simp add: demo_render_env_def)
  have d: "clip_duration demo_render_env (Some ''narration.mp3'') (5/2) = 62/25"
    by (simp add: clip_duration_def demo_render_env_def get_audio_duration_def)
  have e: "map seg_position (generate_single_video demo_render_env [''i0.png'']
          [''v0.mp4'', ''v1.mp4'', ''v2.mp4''] (Some ''narration.mp3'') (5/2)) = [0, 2, 4]"
    by code_simp
  from slot_duration_in_range[OF a b c, of "5/2" "[''i0.png'']" "[''v0.mp4'', ''v1.mp4'', ''v2.mp4'']"] d e
  show ?thesis by (simp add: list_all_iff)
qed

lemma used_assets_append:
  "used_assets ty (xs @ ys) = used_assets ty xs @ used_assets ty ys"
  by (simp add: used_assets_def)

lemma pool_inv_step:
  "pool_inv st \<Longrightarrow> pool_inv (slot_step env images stock dpc st slot)"
  by (fastforce simp: pool_inv_def slot_step_def Let_def used_assets_def)

lemma pool_inv_run:
  "pool_inv st \<Longrightarrow> pool_inv (run_slots env images stock dpc st slots)"
  unfolding run_slots_def
  by (induction slots arbitrary: st) (simp_all add: pool_inv_step)

lemma pool_inv_init: "pool_inv init_state"
  by (simp add: pool_inv_def init_state_def used_assets_def)

lemma step_length:
  "length (segments (slot_step env images stock dpc st slot)) \<le> Suc (length (segments st))"
  by (simp add: slot_step_def Let_def)

lemma run_length:
  "length (segments (run_slots env images stock dpc st slots)) \<le> length (segments st) + length slots"
  unfolding run_slots_def
proof (induction slots arbitrary: st)
  case Nil then show ?case by simp
next
  case (Cons a slots)
  have "length (segments (foldl (slot_step env images stock dpc) (slot_step env images stock dpc st a) slots))
        \<le> length (segments (slot_step env images stock dpc st a)) + length slots"
    by (rule Cons.IH)
  also have "\<dots> \<le> Suc (length (segments st)) + length slots"
    using step_length[of env images stock dpc st a] by simp
  finally show ?case by simp
qed

lemma step_later_video:
  "i \<in> set (used_assets 0 (segments (slot_step env images stock dpc st slot))) \<Longrightarrow>
   i \<in> set (used_assets 0 (segments st)) \<or> video_idx st \<le> i"
  by (auto simp: slot_step_def Let_def used_assets_def split: if_splits)

lemma step_later_image:
  "i \<in> set (used_assets 1 (segments (slot_step env images stock dpc st slot))) \<Longrightarrow>
   i \<in> set (used_assets 1 (segments st)) \<or> image_idx st \<le> i"
  by (auto simp: slot_step_def Let_def used_assets_def split: if_splits)

lemma step_idx_mono:
  "video_idx st \<le> video_idx (slot_step env images stock dpc st slot) \<and>
   image_idx st \<le> image_idx (slot_step env images stock dpc st slot)"
  by (simp add: slot_step_def Let_def)

lemma run_later_video:
  "i \<in> set (used_assets 0 (segments (run_slots env images stock dpc st slots))) \<Longrightarrow>
   i \<in> set (used_assets 0 (segments st)) \<or> video_idx st \<le> i"
  unfolding run_slots_def
proof (induction slots arbitrary: st)
  case Nil then show ?case by simp
next
  case (Cons a slots)
  let ?st' = "slot_step env images stock dpc st a"
  from Cons.prems have "i \<in> set (used_assets 0 (segments (foldl (slot_step env images stock dpc) ?st' slots)))"
    by simp
  from Cons.IH[OF this] have "i \<in> set (used_assets 0 (segments ?st')) \<or> video_idx ?st' \<le> i" .
  then show ?case
    using step_later_video[of i env images stock dpc st a] step_idx_mono[of st env images stock dpc a]
    by auto
qed

lemma run_later_image:
  "i \<in> set (used_assets 1 (segments (run_slots env images stock dpc st slots))) \<Longrightarrow>
   i \<in> set (used_assets 1 (segments st)) \<or> image_idx st \<le> i"
  unfolding run_slots_def
proof (induction slots arbitrary: st)
  case Nil then show ?case by simp
next
  case (Cons a slots)
  let ?st' = "slot_step env images stock dpc st a"
  from Cons.prems have "i \<in> set (used_assets 1 (segments (foldl (slot_step env images stock dpc) ?st' slots)))"
    by simp
  from Cons.IH[OF this] have "i \<in> set (used_assets 1 (segments ?st')) \<or> image_idx ?st' \<le> i" .
  then show ?case
    using step_later_image[of i env images stock dpc st a] step_idx_mono[of st env images stock dpc a]
    by auto
qed

lemma run_slots_split:
  "k < length slots \<Longrightarrow>
   run_slots env images stock dpc st slots =
   run_slots env images stock dpc
     (slot_step env images stock dpc (run_slots env images stock dpc st (take k slots)) (slots ! k))
     (drop (Suc k) slots)"
proof -
  assume k: "k < length slots"
  then have "slots = take k slots @ slots ! k # drop (Suc k) slots"
    by (simp add: id_take_nth_drop)
  then have "run_slots env images stock dpc st slots =
     run_slots env images stock dpc st (take k slots @ slots ! k # drop (Suc k) slots)" by simp
  then show ?thesis by (simp add: run_slots_def)
qed

lemma failed_video_consumed:
  assumes k: "k < length slots" and ty: "snd (slots ! k) = 0"
    and inv: "pool_inv st"
    and avail: "video_idx (run_slots env images stock dpc st (take k slots)) < length stock"
    and fail: "\<not> render_ok env (fst (slots ! k))"
  shows "video_idx (slot_step env images stock dpc (run_slots env images stock dpc st (take k slots)) (slots ! k))
           = Suc (video_idx (run_slots env images stock dpc st (take k slots)))
       \<and> video_idx (run_slots env images stock dpc st (take k slots))
           \<notin> set (used_assets 0 (segments (run_slots env images stock dpc st slots)))"
proof -
  let ?pre = "run_slots env images stock dpc st (take k slots)"
  let ?mid = "slot_step env images stock dpc ?pre (slots ! k)"
  have mid: "?mid = ?pre\<lparr>video_idx := video_idx ?pre + 1\<rparr>"
    using ty avail fail by (simp add: slot_step_def Let_def)
  have pinv: "pool_inv ?pre" using inv by (rule pool_inv_run)
  have notin_mid: "video_idx ?pre \<notin> set (used_assets 0 (segments ?mid))"
    using pinv unfolding mid pool_inv_def by auto
  have "video_idx ?pre \<notin> set (used_assets 0 (segments (run_slots env images stock dpc ?mid (drop (Suc k) slots))))"
  proof
    assume "video_idx ?pre \<in> set (used_assets 0 (segments (run_slots env images stock dpc ?mid (drop (Suc k) slots))))"
    from run_later_video[OF this] notin_mid have "video_idx ?mid \<le> video_idx ?pre" by simp
    then show False unfolding mid by simp
  qed
  then show ?thesis using run_slots_split[OF k, of env images stock dpc st] mid by simp
qed

lemma failed_image_consumed:
  assumes k: "k < length slots" and ty: "snd (slots ! k) = 1"
    and inv: "pool_inv st"
    and avail: "image_idx (run_slots env images stock dpc st (take k slots)) < length images"
    and fail: "\<not> render_ok env (fst (slots ! k))"
  shows "image_idx (slot_step env images stock dpc (run_slots env images stock dpc st (take k slots)) (slots ! k))
           = Suc (image_idx (run_slots env images stock dpc st (take k slots)))
       \<and> image_idx (run_slots env images stock dpc st (take k slots))
           \<notin> set (used_assets 1 (segments (run_slots env images stock dpc st slots)))"
proof -
  let ?pre = "run_slots env images stock dpc st (take k slots)"
  let ?mid = "slot_step env images stock dpc ?pre (slots ! k)"
  have mid: "?mid = ?pre\<lparr>image_idx := image_idx ?pre + 1\<rparr>"
    using ty avail fail by (simp add: slot_step_def Let_def)
  have pinv: "pool_inv ?pre" using inv by (rule pool_inv_run)
  have notin_mid: "image_idx ?pre \<notin> set (used_assets 1 (segments ?mid))"
    using pinv unfolding mid pool_inv_def by auto
  have "image_idx ?pre \<notin> set (used_assets 1 (segments (run_slots env images stock dpc ?mid (drop (Suc k) slots))))"
  proof
    assume "image_idx ?pre \<in> set (used_assets 1 (segments (run_slots env images stock dpc ?mid (drop (Suc k) slots))))"
    from run_later_image[OF this] notin_mid have "image_idx ?mid \<le> image_idx ?pre" by simp
    then show False unfolding mid by simp
  qed
  then show ?thesis using run_slots_split[OF k, of env images stock dpc st] mid by simp
qed


lemma state_before_Suc:
  assumes "k < length pattern"
  shows "state_before env images stock ap dflt (Suc k) =
         slot_step env images stock (clip_duration env ap dflt)
           (state_before env images stock ap dflt k) (k, pattern ! k)"
proof -
  have "k < length (enumerate 0 pattern)" using assms by simp
  then have "take (Suc k) (enumerate 0 pattern) = take k (enumerate 0 pattern) @ [enumerate 0 pattern ! k]"
    by (rule take_Suc_conv_app_nth)
  moreover have "enumerate 0 pattern ! k = (k, pattern ! k)"
    using assms by (simp add: nth_enumerate_eq)
  ultimately show ?thesis by (simp add: state_before_def run_slots_def)
qed

text \<open>
  Claim C9. No stock video and no image is rendered into two output clips; there are at
  most as many output clips as pattern slots (25); the pool indices never decrease; and
  when the render of an available asset fails, its pool index is still advanced, so that
  asset occurs in no output clip.
\<close>

theorem pool_assets_consumed_once:
  "distinct (used_assets 0 (generate_single_video env images stock_videos audio_path dflt))
   \<and> distinct (used_assets 1 (generate_single_video env images stock_videos audio_path dflt))
   \<and> length (generate_single_video env images stock_videos audio_path dflt) \<le> length pattern
   \<and> length pattern = 25
   \<and> (\<forall>k < length pattern.
        video_idx (state_before env images stock_videos audio_path dflt k)
          \<le> video_idx (state_before env images stock_videos audio_path dflt (Suc k))
      \<and> image_idx (state_before env images stock_videos audio_path dflt k)
          \<le> image_idx (state_before env images stock_videos audio_path dflt (Suc k))
      \<and> (pattern ! k = 0 \<and> \<not> render_ok env k
           \<and> video_idx (state_before env images stock_videos audio_path dflt k) < length stock_videos
         \<longrightarrow> video_idx (state_before env images stock_videos audio_path dflt (Suc k))
               = Suc (video_idx (state_before env images stock_videos audio_path dflt k))
             \<and> video_idx (state_before env images stock_videos audio_path dflt k)
                 \<notin> set (used_assets 0 (generate_single_video env images stock_videos audio_path dflt)))
      \<and> (pattern ! k = 1 \<and> \<not> render_ok env k
           \<and> image_idx (state_before env images stock_videos audio_path dflt k) < length images
         \<longrightarrow> image_idx (state_before env images stock_videos audio_path dflt (Suc k))
               = Suc (image_idx (state_before env images stock_videos audio_path dflt k))
             \<and> image_idx (state_before env images stock_videos audio_path dflt k)
                 \<notin> set (used_assets 1 (generate_single_video env images stock_videos audio_path dflt))))"
proof -
  let ?dpc = "clip_duration env audio_path dflt"
  let ?slots = "enumerate 0 pattern"
  let ?out = "generate_single_video env images stock_videos audio_path dflt"
  let ?sb = "state_before env images stock_videos audio_path dflt"
  have out: "?out = segments (run_slots env images stock_videos ?dpc init_state ?slots)"
    by (simp add: generate_single_video_def)
  have inv: "pool_inv (run_slots env images stock_videos ?dpc init_state ?slots)"
    using pool_inv_init by (rule pool_inv_run)
  have d0: "distinct (used_assets 0 ?out)" and d1: "distinct (used_assets 1 ?out)"
    using inv unfolding out pool_inv_def by simp_all
  have len: "length ?out \<le> length pattern"
    unfolding out using run_length[of env images stock_videos ?dpc init_state ?slots]
    by (simp add: init_state_def)
  have l25: "length pattern = 25" by (simp add: pattern_def)
  have steps: "video_idx (?sb k) \<le> video_idx (?sb (Suc k))
      \<and> image_idx (?sb k) \<le> image_idx (?sb (Suc k))
      \<and> (pattern ! k = 0 \<and> \<not> render_ok env k \<and> video_idx (?sb k) < length stock_videos
         \<longrightarrow> video_idx (?sb (Suc k)) = Suc (video_idx (?sb k))
             \<and> video_idx (?sb k) \<notin> set (used_assets 0 ?out))
      \<and> (pattern ! k = 1 \<and> \<not> render_ok env k \<and> image_idx (?sb k) < length images
         \<longrightarrow> image_idx (?sb (Suc k)) = Suc (image_idx (?sb k))
             \<and> image_idx (?sb k) \<notin> set (used_assets 1 ?out))" if k: "k < length pattern" for k
  proof -
    have kl: "k < length ?slots" using k by simp
    have nth: "?slots ! k = (k, pattern ! k)" using k by (simp add: nth_enumerate_eq)
    have suc: "?sb (Suc k) = slot_step env images stock_videos ?dpc (?sb k) (?slots ! k)"
      using state_before_Suc[OF k] nth by simp
    have sbk: "?sb k = run_slots env images stock_videos ?dpc init_state (take k ?slots)"
      by (simp add: state_before_def)
    have mono: "video_idx (?sb k) \<le> video_idx (?sb (Suc k)) \<and> image_idx (?sb k) \<le> image_idx (?sb (Suc k))"
      unfolding suc by (rule step_idx_mono)
    have v: "video_idx (?sb (Suc k)) = Suc (video_idx (?sb k)) \<and> video_idx (?sb k) \<notin> set (used_assets 0 ?out)"
      if "pattern ! k = 0" "\<not> render_ok env k" "video_idx (?sb k) < length stock_videos"
      unfolding suc out sbk
      using failed_video_consumed[OF kl _ pool_inv_init, of env images stock_videos ?dpc] that nth sbk
      by simp
    have i: "image_idx (?sb (Suc k)) = Suc (image_idx (?sb k)) \<and> image_idx (?sb k) \<notin> set (used_assets 1 ?out)"
      if "pattern ! k = 1" "\<not> render_ok env k" "image_idx (?sb k) < length images"
      unfolding suc out sbk
      using failed_image_consumed[OF kl _ pool_inv_init, of env images stock_videos ?dpc] that nth sbk
      by simp
    show ?thesis using mono v i by blast
  qed
  show ?thesis using d0 d1 len l25 steps by blast
qed

theorem pool_assets_consumed_once_witness:
  "(1::nat) < length pattern \<and> pattern ! 1 = 0 \<and> \<not> render_ok demo_render_env 1
   \<and> video_idx (state_before demo_render_env [''i0.png''] [''v0.mp4'', ''v1.mp4'', ''v2.mp4'']
                  (Some ''narration.mp3'') (5/2) 1) < length [''v0.mp4'', ''v1.mp4'', ''v2.mp4'']
   \<and> video_idx (state_before demo_render_env [''i0.png''] [''v0.mp4'', ''v1.mp4'', ''v2.mp4'']
                  (Some ''narration.mp3'') (5/2) 1)
       \<notin> set (used_assets 0 (generate_single_video demo_render_env [''i0.png'']
                  [''v0.mp4'', ''v1.mp4'', ''v2.mp4''] (Some ''narration.mp3'') (5/2)))"
proof -
  have a: "(1::nat) < length pattern" by (simp add: pattern_def)
  have b: "pattern ! 1 = 0" by (simp add: pattern_def)
  have c: "\<not> render_ok demo_render_env 1" by (simp add: demo_render_env_def)
  have d: "video_idx (state_before demo_render_env [''i0.png''] [''v0.mp4'', ''v1.mp4'', ''v2.mp4'']
                  (Some ''narration.mp3'') (5/2) 1) < length [''v0.mp4'', ''v1.mp4'', ''v2.mp4'']"
    by code_simp
  from pool_assets_consumed_once[of demo_render_env "[''i0.png'']" "[''v0.mp4'', ''v1.mp4'', ''v2.mp4'']" "Some ''narration.mp3''" "5/2"]
    a b c d show ?thesis by blast
qed

section \<open>Properties of concatenation and narration merge\<close>


lemma merge_cmd_far:
  "\<bar>v - n\<bar> > 2 \<Longrightarrow> n \<noteq> 0 \<Longrightarrow>
   \<exists>cmd. merge_cmd v n vp ap out ''replace'' = Inr cmd \<and> speed_factors cmd = [v / n]
      \<and> A ''-shortest'' \<in> set cmd \<and> \<not> audio_filtered cmd"
  by (simp add: merge_cmd_def speed_factors_def audio_filtered_def py_div_def)

text \<open>
  Claim C7. For positive durations \<open>v\<close> and \<open>n\<close> more than 2 seconds apart, the
  replace-mode command carries exactly one speed factor \<open>f = v / n\<close>; it satisfies
  \<open>f * n = v\<close> and is strictly positive.
\<close>

theorem speed_factor_round_trip:
  assumes "0 < v" "0 < n" "\<bar>v - n\<bar> > 2"
  shows "\<exists>cmd f. merge_cmd v n vp ap out ''replace'' = Inr cmd \<and> speed_factors cmd = [f]
           \<and> f = v / n \<and> f * n = v \<and> 0 < f"
proof -
  from assms(2) have n: "n \<noteq> 0" by simp
  from merge_cmd_far[OF assms(3) n, of vp ap out]
  obtain cmd where "merge_cmd v n vp ap out ''replace'' = Inr cmd" "speed_factors cmd = [v / n]"
    by blast
  moreover have "v / n * n = v" using n by simp
  moreover have "0 < v / n" using assms(1,2) by simp
  ultimately show ?thesis by blast
qed

theorem speed_factor_round_trip_witness:
  "(0::rat) < 50 \<and> (0::rat) < 25 \<and> \<bar>50 - 25\<bar> > (2::rat)
   \<and> (\<exists>cmd f. merge_cmd 50 25 ''v.mp4'' ''a.mp3'' ''o.mp4'' ''replace'' = Inr cmd
          \<and> speed_factors cmd = [f] \<and> f = 2 \<and> f * 25 = 50 \<and> 0 < f)"
proof -
  have a: "(0::rat) < 50" and b: "(0::rat) < 25" and c: "\<bar>50 - 25\<bar> > (2::rat)" by simp_all
  from speed_factor_round_trip[OF a b c, of "''v.mp4''" "''a.mp3''" "''o.mp4''"] a b c show ?thesis by simp
qed





text \<open>
  Claim C3. The code at the failing input: a narration whose probe reports 0 gives the
  segment generator the per-clip duration 2.0, and \<open>generate_final_video\<close> then raises
  \<open>ZeroDivisionError\<close> in the narration merge instead of returning a final path.
\<close>

theorem zero_narration_aborts:
  "clip_duration mute_render_env (Some ''narration.mp3'') (5/2) = 2
   \<and> snd (generate_final_video (calm_env probe_zero) None [''hook.mp4'', ''intro.mp4'', ''s0.mp4'']
        (Some ''narration.mp3'') None None) = Inl ZeroDivisionError"
  by (simp add: clip_duration_def get_audio_duration_def mute_render_env_def generate_final_video_def existing_def concatenate_videos_def
      concatenate_with_smooth_transitions_def and_then_def add_audio_to_video_def merge_cmd_def py_div_def
      get_video_duration_def final_get_audio_duration_def calm_env_def probe_zero_def Let_def)




lemma not_crossfade_concat: "\<not> is_crossfade (Run (concat_cmd cf out))"
  by (simp add: is_crossfade_def concat_cmd_def)
















text \<open>
  Claim C10. Concatenating the empty list performs no effect and raises
  \<open>ValueError('No videos to concatenate')\<close>; concatenating a single path performs
  exactly one effect, the copy of that file to the output path, and returns the output
  path unless the copy itself raises.
\<close>

theorem concatenate_empty_and_single:
  "concatenate_videos env [] out with_transitions = ([], Inl (ValueError ''No videos to concatenate''))
   \<and> fst (concatenate_videos env [v] out with_transitions) = [Copy v out]
   \<and> snd (concatenate_videos env [v] out with_transitions)
       = (case outcome env (Copy v out) of None \<Rightarrow> Inr out | Some e \<Rightarrow> Inl e)"
  by (simp add: concatenate_videos_def and_then_def split: option.splits)

section \<open>Properties of the overlay generator and burn-in\<close>

lemma key_phrases_le: "length (key_phrases content) \<le> 5"
proof -
  have "length (filter (\<lambda>s. strip s \<noteq> []) (take 5 (split_dot content))) \<le> length (take 5 (split_dot content))"
    by (rule length_filter_le)
  then show ?thesis by (simp add: key_phrases_def Let_def)
qed

lemma points_length: "length (generate_engagement_points T content) = length (key_phrases content)"
  by (simp add: generate_engagement_points_def Let_def)

lemma points_nth:
  assumes "i < length (generate_engagement_points T content)"
  shows "generate_engagement_points T content ! i =
     \<lparr>pt_text = key_phrases content ! i,
      pt_start = T / of_nat (length (key_phrases content) + 1) * of_nat (i + 1),
      pt_duration = 2\<rparr>"
proof -
  from assms have i: "i < length (key_phrases content)" by (simp add: points_length)
  then show ?thesis
    by (simp add: generate_engagement_points_def Let_def nth_enumerate_eq)
qed

lemma points_text: "map pt_text (generate_engagement_points T content) = key_phrases content"
proof (rule nth_equalityI)
  show "length (map pt_text (generate_engagement_points T content)) = length (key_phrases content)"
    by (simp add: points_length)
next
  fix i assume "i < length (map pt_text (generate_engagement_points T content))"
  then have i: "i < length (generate_engagement_points T content)" by simp
  then show "map pt_text (generate_engagement_points T content) ! i = key_phrases content ! i"
    by (simp add: points_nth)
qed

lemma split_dot_ne: "split_dot s \<noteq> []"
  by (induction s) (simp_all split: list.splits)

lemma join_dot_push: "join_dot ((c # w) # ws) = c # join_dot (w # ws)"
  by (cases ws) simp_all

lemma join_split: "join_dot (split_dot s) = s"
proof (induction s)
  case Nil
  show ?case by simp
next
  case (Cons c cs)
  obtain w ws where sp: "split_dot cs = w # ws" using split_dot_ne[of cs] by (cases "split_dot cs") auto
  show ?case
  proof (cases "c = 46")
    case True
    then show ?thesis using Cons.IH sp by simp
  next
    case False
    then show ?thesis using Cons.IH sp by (simp add: join_dot_push)
  qed
qed

lemma split_no_dot: "piece \<in> set (split_dot s) \<Longrightarrow> 46 \<notin> set piece"
proof (induction s arbitrary: piece)
  case Nil
  then show ?case by simp
next
  case (Cons c cs)
  obtain w ws where sp: "split_dot cs = w # ws" using split_dot_ne[of cs] by (cases "split_dot cs") auto
  have w: "46 \<notin> set w" and ws: "\<forall>v \<in> set ws. 46 \<notin> set v"
    using Cons.IH sp by auto
  show ?case
  proof (cases "c = 46")
    case True
    with Cons.prems sp have "piece = [] \<or> piece \<in> set (split_dot cs)" by auto
    then show ?thesis using Cons.IH by auto
  next
    case False
    with Cons.prems sp have "piece = c # w \<or> piece \<in> set ws" by auto
    then show ?thesis using False w ws by auto
  qed
qed

lemma strip_decomp:
  "\<exists>a b. s = a @ strip s @ b \<and> list_all is_space a \<and> list_all is_space b"
proof -
  let ?t = "dropWhile is_space s"
  have 1: "s = takeWhile is_space s @ ?t" by simp
  have "rev (takeWhile is_space (rev ?t) @ dropWhile is_space (rev ?t)) = rev (rev ?t)"
    by (simp only: takeWhile_dropWhile_id)
  then have 2: "?t = strip s @ rev (takeWhile is_space (rev ?t))"
    by (simp only: rev_append rev_rev_ident strip_def)
  have a: "list_all is_space (takeWhile is_space s)"
    by (auto simp: list_all_iff dest: set_takeWhileD)
  have b: "list_all is_space (rev (takeWhile is_space (rev ?t)))"
    by (auto simp: list_all_iff dest: set_takeWhileD)
  from 1 2 have "s = takeWhile is_space s @ strip s @ rev (takeWhile is_space (rev ?t))" by simp
  with a b show ?thesis by blast
qed

lemma last_dropWhile_ne:
  assumes "dropWhile Q xs \<noteq> []"
  shows "last (dropWhile Q xs) = last xs"
proof -
  have "last (takeWhile Q xs @ dropWhile Q xs) = last (dropWhile Q xs)"
    using assms by (rule last_appendR)
  then show ?thesis by (simp only: takeWhile_dropWhile_id)
qed

lemma strip_ends:
  assumes "strip s \<noteq> []"
  shows "\<not> is_space (hd (strip s)) \<and> \<not> is_space (last (strip s))"
proof -
  let ?t = "dropWhile is_space s"
  let ?u = "dropWhile is_space (rev ?t)"
  have u: "?u \<noteq> []" using assms by (simp add: strip_def)
  have t: "?t \<noteq> []"
  proof
    assume e: "?t = []"
    have "?u = []" unfolding e by simp
    with u show False by blast
  qed
  have l: "\<not> is_space (hd ?u)" using u by (rule hd_dropWhile)
  have ht: "\<not> is_space (hd ?t)" using t by (rule hd_dropWhile)
  have "last ?u = last (rev ?t)" using u by (rule last_dropWhile_ne)
  also have "\<dots> = hd ?t" using t by (simp add: last_rev)
  finally have lu: "last ?u = hd ?t" .
  have "hd (strip s) = last ?u" using u by (simp add: strip_def hd_rev)
  moreover have "last (strip s) = hd ?u" using u by (simp add: strip_def last_rev)
  ultimately show ?thesis using l ht lu by simp
qed


lemma is_space_iff:
  "is_space c \<longleftrightarrow> c \<in> set [9, 10, 11, 12, 13, 28, 29, 30, 31, 32, 133, 160, 5760,
      8192, 8193, 8194, 8195, 8196, 8197, 8198, 8199, 8200, 8201, 8202,
      8232, 8233, 8239, 8287, 12288]"
  unfolding is_space_def by (simp del: One_nat_def) arith

lemma start_bound:
  fixes T :: rat
  assumes "2 * of_nat (k + 1) \<le> T" "i < k"
  shows "T / of_nat (k + 1) * of_nat (i + 1) + 2 \<le> T"
proof -
  define d where "d = T / of_nat (k + 1)"
  have kpos: "(0::rat) < of_nat (k + 1)" by simp
  have T: "T = d * of_nat (k + 1)" unfolding d_def using kpos by simp
  have d2: "2 \<le> d" unfolding d_def using assms(1) kpos by (simp add: pos_le_divide_eq)
  have "(of_nat (i + 1) :: rat) \<le> of_nat k" using assms(2) by simp
  then have "d * of_nat (i + 1) \<le> d * of_nat k" using d2 by (intro mult_left_mono) simp_all
  also have "d * of_nat k + 2 \<le> d * of_nat k + d" using d2 by simp
  also have "d * of_nat k + d = T" unfolding T by (simp add: algebra_simps)
  finally show ?thesis unfolding d_def[symmetric] by simp
qed

lemma last_overrun:
  fixes T :: rat
  assumes "T < 2 * of_nat (k + 1)" "0 < k"
  shows "T < T / of_nat (k + 1) * of_nat k + 2"
proof -
  define d where "d = T / of_nat (k + 1)"
  have kpos: "(0::rat) < of_nat (k + 1)" by simp
  have T: "T = d * of_nat (k + 1)" unfolding d_def using kpos by simp
  have d2: "d < 2" unfolding d_def using assms(1) kpos by (simp add: pos_divide_less_eq)
  have "T = d * of_nat k + d" unfolding T by (simp add: algebra_simps)
  also have "\<dots> < d * of_nat k + 2" using d2 by simp
  finally show ?thesis unfolding d_def[symmetric] .
qed

text \<open>
  Claim C6, as amended. The texts of the returned points are, in order, the first 50
  characters of the stripped pieces that are not blank among the first five
  dot-separated pieces of the content; the pieces contain no dot and give the content
  back when joined by dots, and stripping a piece removes whitespace at its two ends and
  nothing else, whitespace being the 29 code points listed. So there are at most 5
  points. Point \<open>i\<close> of \<open>k\<close> starts at
  \<open>T / (k + 1) * (i + 1)\<close> and lasts 2.0 seconds; every point ends within the timeline
  when \<open>T \<ge> 2 (k + 1)\<close>, in particular when \<open>T \<ge> 12\<close>; and when there is a point
  and \<open>T < 2 (k + 1)\<close>, the last point ends after \<open>T\<close>.
\<close>

theorem engagement_points_spacing:
  "map pt_text (generate_engagement_points T content)
     = map (\<lambda>s. take 50 (strip s)) (filter (\<lambda>s. strip s \<noteq> []) (take 5 (split_dot content)))
   \<and> join_dot (split_dot content) = content
   \<and> (\<forall>piece \<in> set (split_dot content).
         46 \<notin> set piece
       \<and> (\<exists>a b. piece = a @ strip piece @ b \<and> list_all is_space a \<and> list_all is_space b)
       \<and> (strip piece \<noteq> [] \<longrightarrow>
            \<not> is_space (hd (strip piece)) \<and> \<not> is_space (last (strip piece))))
   \<and> (\<forall>c. is_space c \<longleftrightarrow> c \<in> set [9, 10, 11, 12, 13, 28, 29, 30, 31, 32, 133, 160, 5760,
          8192, 8193, 8194, 8195, 8196, 8197, 8198, 8199, 8200, 8201, 8202,
          8232, 8233, 8239, 8287, 12288])
   \<and> length (generate_engagement_points T content) \<le> 5
   \<and> (\<forall>i < length (generate_engagement_points T content).
         pt_start (generate_engagement_points T content ! i)
           = T / of_nat (length (generate_engagement_points T content) + 1) * of_nat (i + 1)
       \<and> pt_duration (generate_engagement_points T content ! i) = 2)
   \<and> (2 * of_nat (length (generate_engagement_points T content) + 1) \<le> T \<longrightarrow>
        (\<forall>p \<in> set (generate_engagement_points T content). pt_start p + pt_duration p \<le> T))
   \<and> (12 \<le> T \<longrightarrow>
        (\<forall>p \<in> set (generate_engagement_points T content). pt_start p + pt_duration p \<le> T))
   \<and> (generate_engagement_points T content \<noteq> []
        \<and> T < 2 * of_nat (length (generate_engagement_points T content) + 1) \<longrightarrow>
        T < pt_start (last (generate_engagement_points T content))
              + pt_duration (last (generate_engagement_points T content)))"
proof -
  let ?pts = "generate_engagement_points T content"
  let ?k = "length ?pts"
  have ptx: "map pt_text ?pts
     = map (\<lambda>s. take 50 (strip s)) (filter (\<lambda>s. strip s \<noteq> []) (take 5 (split_dot content)))"
    by (simp add: points_text key_phrases_def)
  have js: "join_dot (split_dot content) = content" by (rule join_split)
  have pc: "46 \<notin> set piece
       \<and> (\<exists>a b. piece = a @ strip piece @ b \<and> list_all is_space a \<and> list_all is_space b)
       \<and> (strip piece \<noteq> [] \<longrightarrow>
            \<not> is_space (hd (strip piece)) \<and> \<not> is_space (last (strip piece)))"
    if "piece \<in> set (split_dot content)" for piece
    using split_no_dot[OF that] strip_decomp[of piece] strip_ends[of piece] by blast
  have sp: "\<forall>c. is_space c \<longleftrightarrow> c \<in> set [9, 10, 11, 12, 13, 28, 29, 30, 31, 32, 133, 160, 5760,
          8192, 8193, 8194, 8195, 8196, 8197, 8198, 8199, 8200, 8201, 8202,
          8232, 8233, 8239, 8287, 12288]"
    using is_space_iff by blast
  have k: "?k = length (key_phrases content)" by (rule points_length)
  have k5: "?k \<le> 5" unfolding k by (rule key_phrases_le)
  have nth: "pt_start (?pts ! i) = T / of_nat (?k + 1) * of_nat (i + 1) \<and> pt_duration (?pts ! i) = 2"
    if "i < ?k" for i
    using points_nth[OF that] k by simp
  have bound: "\<forall>p \<in> set ?pts. pt_start p + pt_duration p \<le> T" if h: "2 * of_nat (?k + 1) \<le> T"
  proof
    fix p assume "p \<in> set ?pts"
    then obtain i where i: "i < ?k" "p = ?pts ! i" by (auto simp: in_set_conv_nth)
    from start_bound[OF h i(1)] nth[OF i(1)] i(2) show "pt_start p + pt_duration p \<le> T" by simp
  qed
  have b12: "\<forall>p \<in> set ?pts. pt_start p + pt_duration p \<le> T" if h: "12 \<le> T"
  proof -
    have "(of_nat (?k + 1) :: rat) \<le> of_nat 6" using k5 by simp
    then have "2 * of_nat (?k + 1) \<le> T" using h by simp
    then show ?thesis by (rule bound)
  qed
  have over: "T < pt_start (last ?pts) + pt_duration (last ?pts)"
    if ne: "?pts \<noteq> []" and h: "T < 2 * of_nat (?k + 1)"
  proof -
    from ne have pos: "0 < ?k" by simp
    then have l: "last ?pts = ?pts ! (?k - 1)" using ne by (simp add: last_conv_nth)
    from pos have i: "?k - 1 < ?k" by simp
    have e: "?k - 1 + 1 = ?k" using pos by simp
    from nth[OF i] last_overrun[OF h pos] show ?thesis unfolding l e by simp
  qed
  show ?thesis using ptx js pc sp k5 nth bound b12 over by blast
qed

lemma demo_short_points:
  "generate_engagement_points 5 (py ''Great sound. Long battery life.'')
       = [\<lparr>pt_text = py ''Great sound'', pt_start = 5/3, pt_duration = 2\<rparr>,
          \<lparr>pt_text = py ''Long battery life'', pt_start = 10/3, pt_duration = 2\<rparr>]"
  by (simp add: generate_engagement_points_def key_phrases_def strip_def is_space_def py_def
      enumerate_eq_zip upt_rec)

text \<open>
  Claim C6 as stated fails: on a timeline of 5 seconds and a content of two sentences the
  second point starts at 10/3 and ends at 16/3, after the end of the timeline.
\<close>

theorem engagement_points_counterexample:
  "(0::rat) < 5 \<and> py ''Great sound. Long battery life.'' \<noteq> []
   \<and> generate_engagement_points 5 (py ''Great sound. Long battery life.'')
       = [\<lparr>pt_text = py ''Great sound'', pt_start = 5/3, pt_duration = 2\<rparr>,
          \<lparr>pt_text = py ''Long battery life'', pt_start = 10/3, pt_duration = 2\<rparr>]
   \<and> (5::rat) < 10/3 + 2"
  by (simp add: demo_short_points) (simp add: py_def)

lemma demo_long_points:
  "generate_engagement_points 60 demo_content
     = [\<lparr>pt_text = py ''Great sound'', pt_start = 12, pt_duration = 2\<rparr>,
        \<lparr>pt_text = py ''Long battery life and a very comfortable fit for a'', pt_start = 24,
          pt_duration = 2\<rparr>,
        \<lparr>pt_text = py ''B'', pt_start = 36, pt_duration = 2\<rparr>,
        \<lparr>pt_text = py ''C'', pt_start = 48, pt_duration = 2\<rparr>]"
  by (simp add: generate_engagement_points_def key_phrases_def strip_def is_space_def py_def
      demo_content_def enumerate_eq_zip upt_rec)

lemma demo_nbsp_points:
  "generate_engagement_points 60 [160, 46, 133, 46, 32, 122]
     = [\<lparr>pt_text = [122], pt_start = 30, pt_duration = 2\<rparr>]"
  by (simp add: generate_engagement_points_def key_phrases_def strip_def is_space_def
      enumerate_eq_zip upt_rec)

theorem engagement_points_spacing_witness:
  "generate_engagement_points 60 demo_content
     = [\<lparr>pt_text = py ''Great sound'', pt_start = 12, pt_duration = 2\<rparr>,
        \<lparr>pt_text = py ''Long battery life and a very comfortable fit for a'', pt_start = 24,
          pt_duration = 2\<rparr>,
        \<lparr>pt_text = py ''B'', pt_start = 36, pt_duration = 2\<rparr>,
        \<lparr>pt_text = py ''C'', pt_start = 48, pt_duration = 2\<rparr>]
   \<and> generate_engagement_points 60 [160, 46, 133, 46, 32, 122]
     = [\<lparr>pt_text = [122], pt_start = 30, pt_duration = 2\<rparr>]
   \<and> (12::rat) \<le> 60
   \<and> pt_start (last (generate_engagement_points 60 demo_content))
       + pt_duration (last (generate_engagement_points 60 demo_content)) \<le> 60
   \<and> py ''  Great sound'' \<in> set (split_dot demo_content)
   \<and> strip (py ''  Great sound'') = py ''Great sound''
   \<and> \<not> is_space (hd (strip (py ''  Great sound'')))
   \<and> (5::rat) < 2 * of_nat (length (generate_engagement_points 5 (py ''Great sound. Long battery life.'')) + 1)
   \<and> 5 < pt_start (last (generate_engagement_points 5 (py ''Great sound. Long battery life.'')))
       + pt_duration (last (generate_engagement_points 5 (py ''Great sound. Long battery life.'')))"
proof -
  let ?c = "py ''Great sound. Long battery life.''"
  let ?p = "py ''  Great sound''"
  have l: "length (generate_engagement_points 60 demo_content) = 4" by (simp add: demo_long_points)
  have l5: "length (generate_engagement_points 5 ?c) = 2" by (simp add: demo_short_points)
  have ne: "generate_engagement_points 60 demo_content \<noteq> []" using l by auto
  have ne5: "generate_engagement_points 5 ?c \<noteq> []" using l5 by auto
  have t: "(12::rat) \<le> 60" by simp
  have small: "(5::rat) < 2 * of_nat (length (generate_engagement_points 5 ?c) + 1)" using l5 by simp
  have m: "last (generate_engagement_points 60 demo_content) \<in> set (generate_engagement_points 60 demo_content)"
    using ne by simp
  have pm: "?p \<in> set (split_dot demo_content)" by (simp add: demo_content_def py_def)
  have ps: "strip ?p = py ''Great sound''" by (simp add: strip_def is_space_def py_def)
  have pn: "strip ?p \<noteq> []" unfolding ps by (simp add: py_def)
  note a = engagement_points_spacing[of 60 demo_content]
  note b = engagement_points_spacing[of 5 ?c]
  from a t m have e: "pt_start (last (generate_engagement_points 60 demo_content))
       + pt_duration (last (generate_engagement_points 60 demo_content)) \<le> 60" by blast
  from a pm pn have h: "\<not> is_space (hd (strip ?p))" by blast
  from b ne5 small have o: "5 < pt_start (last (generate_engagement_points 5 ?c))
       + pt_duration (last (generate_engagement_points 5 ?c))" by blast
  from demo_long_points demo_nbsp_points t e pm ps h small o show ?thesis by blast
qed

text \<open>
  Claim C8, as amended. When the ffmpeg run of the overlay burn-in, or of the
  call-to-action, raises \<open>CalledProcessError\<close>, the function returns the input path;
  the function raises exactly when the run raises another exception, and raises that one.
\<close>

theorem overlay_failure_policy:
  "(outcome env (Run (overlay_cmd vp pts out)) = Some CalledProcessError \<longrightarrow>
      add_text_overlay_intervals env vp pts out = ([Run (overlay_cmd vp pts out)], Inr vp))
   \<and> (outcome env (Run (cta_cmd env vp cta out)) = Some CalledProcessError \<longrightarrow>
      add_call_to_action env vp cta out = ([Run (cta_cmd env vp cta out)], Inr vp))
   \<and> (snd (add_text_overlay_intervals env vp pts out) = Inl e \<longleftrightarrow>
        outcome env (Run (overlay_cmd vp pts out)) = Some e \<and> e \<noteq> CalledProcessError)
   \<and> (snd (add_call_to_action env vp cta out) = Inl e \<longleftrightarrow>
        outcome env (Run (cta_cmd env vp cta out)) = Some e \<and> e \<noteq> CalledProcessError)"
  by (auto simp: add_text_overlay_intervals_def add_call_to_action_def split: option.splits)

theorem overlay_failure_policy_witness:
  "outcome ffmpeg_fails_env (Run (overlay_cmd ''final.mp4'' demo_points ''final_engaged.mp4''))
     = Some CalledProcessError
   \<and> snd (add_text_overlay_intervals ffmpeg_fails_env ''final.mp4'' demo_points ''final_engaged.mp4'')
     = Inr ''final.mp4''
   \<and> outcome ffmpeg_fails_env (Run (cta_cmd ffmpeg_fails_env ''final.mp4'' (py ''Get Yours Now!'') ''final_cta.mp4''))
     = Some CalledProcessError
   \<and> snd (add_call_to_action ffmpeg_fails_env ''final.mp4'' (py ''Get Yours Now!'') ''final_cta.mp4'')
     = Inr ''final.mp4''"
proof -
  have a: "outcome ffmpeg_fails_env (Run (overlay_cmd ''final.mp4'' demo_points ''final_engaged.mp4''))
     = Some CalledProcessError" by (simp add: ffmpeg_fails_env_def)
  have b: "outcome ffmpeg_fails_env (Run (cta_cmd ffmpeg_fails_env ''final.mp4'' (py ''Get Yours Now!'') ''final_cta.mp4''))
     = Some CalledProcessError" by (simp add: ffmpeg_fails_env_def)
  from overlay_failure_policy[of ffmpeg_fails_env "''final.mp4''" demo_points "''final_engaged.mp4''" "py ''Get Yours Now!''"] a
  have 1: "snd (add_text_overlay_intervals ffmpeg_fails_env ''final.mp4'' demo_points ''final_engaged.mp4'')
     = Inr ''final.mp4''" by simp
  from overlay_failure_policy[of ffmpeg_fails_env "''final.mp4''" demo_points "''final_cta.mp4''" "py ''Get Yours Now!''"] b
  have 2: "snd (add_call_to_action ffmpeg_fails_env ''final.mp4'' (py ''Get Yours Now!'') ''final_cta.mp4'')
     = Inr ''final.mp4''" by simp
  from a b 1 2 show ?thesis by blast
qed

text \<open>
  Claim C8 as stated fails: when ffmpeg cannot be started, the run fails with an
  exception that is not a \<open>CalledProcessError\<close>, and both functions raise it.
\<close>

theorem overlay_failure_counterexample:
  "outcome no_ffmpeg_env (Run (overlay_cmd ''final.mp4'' demo_points ''final_engaged.mp4'')) \<noteq> None
   \<and> snd (add_text_overlay_intervals no_ffmpeg_env ''final.mp4'' demo_points ''final_engaged.mp4'')
       = Inl (OtherError ''FileNotFoundError'')
   \<and> outcome no_ffmpeg_env (Run (cta_cmd no_ffmpeg_env ''final.mp4'' (py ''Get Yours Now!'') ''final_cta.mp4'')) \<noteq> None
   \<and> snd (add_call_to_action no_ffmpeg_env ''final.mp4'' (py ''Get Yours Now!'') ''final_cta.mp4'')
       = Inl (OtherError ''FileNotFoundError'')"
  by (simp add: add_text_overlay_intervals_def add_call_to_action_def no_ffmpeg_env_def)


section \<open>Properties of the image provider chain\<close>

lemma calls_append: "calls (xs @ ys) = calls xs @ calls ys"
  by (simp add: calls_def)

lemma calls_Cons: "calls (Call p # xs) = p # calls xs" "calls (Post # xs) = calls xs"
  "calls (Sleep n # xs) = calls xs" "calls [] = []"
  by (simp_all add: calls_def)

lemma hf_attempts_events:
  "calls (fst (hf_attempts env i a n)) = []
   \<and> length (filter (\<lambda>ev. ev = Post) (fst (hf_attempts env i a n))) \<le> n
   \<and> (\<forall>ev \<in> set (fst (hf_attempts env i a n)). ev = Post \<or> ev = Sleep 20)"
  by (induction n arbitrary: a) (auto simp: calls_Cons split: http.splits)

lemma hf_attempts_log:
  "fst (hf_attempts env i a n) =
     concat (map (\<lambda>k. if hf_post env i k = Status 503 then [Post, Sleep 20] else [Post])
                 [a..<a + posts (fst (hf_attempts env i a n))])
   \<and> posts (fst (hf_attempts env i a n)) \<le> n
   \<and> (\<forall>k. a \<le> k \<and> Suc k < a + posts (fst (hf_attempts env i a n)) \<longrightarrow> hf_post env i k = Status 503)
   \<and> (0 < n \<longrightarrow> 0 < posts (fst (hf_attempts env i a n)))
   \<and> (posts (fst (hf_attempts env i a n)) < n \<longrightarrow>
        hf_post env i (a + posts (fst (hf_attempts env i a n)) - 1) \<noteq> Status 503)"
proof (induction n arbitrary: a)
  case 0
  show ?case by (auto simp: posts_def)
next
  case (Suc n)
  let ?f = "\<lambda>k. if hf_post env i k = Status 503 then [Post, Sleep 20] else [Post]"
  show ?case
  proof (cases "hf_post env i a = Status 503")
    case True
    let ?m = "posts (fst (hf_attempts env i (Suc a) n))"
    have ev: "fst (hf_attempts env i a (Suc n)) = Post # Sleep 20 # fst (hf_attempts env i (Suc a) n)"
      using True by simp
    have m: "posts (fst (hf_attempts env i a (Suc n))) = Suc ?m"
      unfolding ev by (simp add: posts_def)
    have up: "[a..<a + Suc ?m] = a # [Suc a..<Suc a + ?m]"
      by (simp add: upt_conv_Cons)
    note ih = Suc.IH[of "Suc a"]
    have 1: "fst (hf_attempts env i a (Suc n)) = concat (map ?f [a..<a + Suc ?m])"
      unfolding up using ih True ev by simp
    have 2: "Suc ?m \<le> Suc n" using ih by simp
    have 3: "\<forall>k. a \<le> k \<and> Suc k < a + Suc ?m \<longrightarrow> hf_post env i k = Status 503"
    proof (intro allI impI)
      fix k assume k: "a \<le> k \<and> Suc k < a + Suc ?m"
      show "hf_post env i k = Status 503"
      proof (cases "k = a")
        case True
        then show ?thesis using \<open>hf_post env i a = Status 503\<close> by simp
      next
        case False
        with k have "Suc a \<le> k \<and> Suc k < Suc a + ?m" by simp
        with ih show ?thesis by blast
      qed
    qed
    have 4: "Suc ?m < Suc n \<longrightarrow> hf_post env i (a + Suc ?m - 1) \<noteq> Status 503"
    proof
      assume "Suc ?m < Suc n"
      then have "?m < n" by simp
      with ih have "hf_post env i (Suc a + ?m - 1) \<noteq> Status 503" by blast
      then show "hf_post env i (a + Suc ?m - 1) \<noteq> Status 503" by simp
    qed
    show ?thesis unfolding m using 1 2 3 4 by simp
  next
    case False
    have ev: "fst (hf_attempts env i a (Suc n)) = [Post]"
      using False by (simp split: http.splits)
    have m: "posts (fst (hf_attempts env i a (Suc n))) = 1"
      unfolding ev by (simp add: posts_def)
    show ?thesis unfolding m unfolding ev using False by auto
  qed
qed

lemma hf_log:
  assumes "has_key env HuggingFace"
  shows "fst (generate_with_huggingface env i) =
     concat (map (\<lambda>k. if hf_post env i k = Status 503 then [Post, Sleep 20] else [Post])
                 [0..<posts (fst (generate_with_huggingface env i))])
   \<and> posts (fst (generate_with_huggingface env i)) \<le> 3
   \<and> (\<forall>k. Suc k < posts (fst (generate_with_huggingface env i)) \<longrightarrow> hf_post env i k = Status 503)
   \<and> 0 < posts (fst (generate_with_huggingface env i))
   \<and> (posts (fst (generate_with_huggingface env i)) < 3 \<longrightarrow>
        hf_post env i (posts (fst (generate_with_huggingface env i)) - 1) \<noteq> Status 503)"
proof -
  have e: "fst (generate_with_huggingface env i) = fst (hf_attempts env i 0 3)"
    using assms by (simp add: generate_with_huggingface_def max_retries_def split: option.splits)
  show ?thesis unfolding e using hf_attempts_log[of env i 0 3] by simp
qed

lemma hf_attempts_result:
  "0 < n \<Longrightarrow>
   (case hf_post env i (a + posts (fst (hf_attempts env i a n)) - 1) of
      Raised e \<Rightarrow> snd (hf_attempts env i a n) = Some e
    | Status c \<Rightarrow>
        (c = 200 \<longrightarrow> snd (hf_attempts env i a n) = None) \<and>
        (c \<noteq> 200 \<and> c \<noteq> 503 \<longrightarrow>
           snd (hf_attempts env i a n) = Some (OtherError ''API returned status code'')))"
proof (induction n arbitrary: a)
  case 0
  then show ?case by simp
next
  case (Suc n)
  show ?case
  proof (cases "hf_post env i a = Status 503")
    case True
    let ?m = "posts (fst (hf_attempts env i (Suc a) n))"
    have ev: "fst (hf_attempts env i a (Suc n)) = Post # Sleep 20 # fst (hf_attempts env i (Suc a) n)"
      and sn: "snd (hf_attempts env i a (Suc n)) = snd (hf_attempts env i (Suc a) n)"
      using True by simp_all
    have m: "posts (fst (hf_attempts env i a (Suc n))) = Suc ?m"
      unfolding ev by (simp add: posts_def)
    show ?thesis
    proof (cases n)
      case 0
      then show ?thesis unfolding m sn using True by (simp add: posts_def)
    next
      case (Suc k)
      then have "0 < n" by simp
      from Suc.IH[OF this, of "Suc a"] show ?thesis unfolding m sn by simp
    qed
  next
    case False
    have ev: "fst (hf_attempts env i a (Suc n)) = [Post]"
      using False by (simp split: http.splits)
    have m: "posts (fst (hf_attempts env i a (Suc n))) = 1"
      unfolding ev by (simp add: posts_def)
    show ?thesis unfolding m using False by (simp split: http.splits)
  qed
qed

lemma hf_result:
  assumes "has_key env HuggingFace"
  shows "(case hf_post env i (posts (fst (generate_with_huggingface env i)) - 1) of
      Raised e \<Rightarrow> snd (generate_with_huggingface env i) = Some e
    | Status c \<Rightarrow>
        (c = 200 \<longrightarrow> snd (generate_with_huggingface env i) = hf_save env i) \<and>
        (c \<noteq> 200 \<and> c \<noteq> 503 \<longrightarrow>
           snd (generate_with_huggingface env i) = Some (OtherError ''API returned status code'')))"
proof -
  have e: "fst (generate_with_huggingface env i) = fst (hf_attempts env i 0 3)"
    using assms by (simp add: generate_with_huggingface_def max_retries_def split: option.splits)
  have s: "snd (generate_with_huggingface env i) =
      (case snd (hf_attempts env i 0 3) of Some x \<Rightarrow> Some x | None \<Rightarrow> hf_save env i)"
    using assms by (simp add: generate_with_huggingface_def max_retries_def split: option.splits)
  have "(0::nat) < 3" by simp
  from hf_attempts_result[OF this, of env i 0] show ?thesis
    unfolding e s by (simp split: http.splits)
qed

lemma hf_events:
  "calls (fst (generate_with_huggingface env i)) = []
   \<and> length (filter (\<lambda>ev. ev = Post) (fst (generate_with_huggingface env i))) \<le> max_retries
   \<and> (\<forall>ev \<in> set (fst (generate_with_huggingface env i)). ev = Post \<or> ev = Sleep 20)"
  using hf_attempts_events[of env i 0 max_retries]
  by (auto simp: generate_with_huggingface_def calls_Cons split: option.splits)

lemma attempt_failed:
  assumes "\<not> snd st" and "en \<longrightarrow> snd call \<noteq> None"
  shows "\<not> snd (attempt en p call st)"
    and "fst (attempt en p call st) = fst st @ (if en then Call p # fst call else [])"
  using assms by (simp_all add: attempt_def)

lemma placeholder_tail:
  assumes "\<not> snd s5"
  shows "fst (if snd s5 then (fst s5, Some q)
            else (case f of
                 None \<Rightarrow> (fst s5 @ [Call Placeholder], Some q)
               | Some e \<Rightarrow>
                   (case r of
                      None \<Rightarrow> (fst s5 @ [Call Placeholder, Call Placeholder], Some q)
                    | Some e' \<Rightarrow> (fst s5 @ [Call Placeholder, Call Placeholder], None))))
         = fst s5 @ (if f = None then [Call Placeholder] else [Call Placeholder, Call Placeholder])"
    and "snd (if snd s5 then (fst s5, Some q)
            else (case f of
                 None \<Rightarrow> (fst s5 @ [Call Placeholder], Some q)
               | Some e \<Rightarrow>
                   (case r of
                      None \<Rightarrow> (fst s5 @ [Call Placeholder, Call Placeholder], Some q)
                    | Some e' \<Rightarrow> (fst s5 @ [Call Placeholder, Call Placeholder], None))))
         = (if f = None \<or> r = None then Some q else None)"
  using assms by (simp_all split: option.splits)

lemma placeholder_tail_events:
  "set (fst (if snd s5 then (fst s5, Some q)
            else (case f of
                 None \<Rightarrow> (fst s5 @ [Call Placeholder], Some q)
               | Some e \<Rightarrow>
                   (case r of
                      None \<Rightarrow> (fst s5 @ [Call Placeholder, Call Placeholder], Some q)
                    | Some e' \<Rightarrow> (fst s5 @ [Call Placeholder, Call Placeholder], None)))))
     \<subseteq> set (fst s5) \<union> {Call Placeholder}"
  "filter (\<lambda>ev. ev = Post) (fst (if snd s5 then (fst s5, Some q)
            else (case f of
                 None \<Rightarrow> (fst s5 @ [Call Placeholder], Some q)
               | Some e \<Rightarrow>
                   (case r of
                      None \<Rightarrow> (fst s5 @ [Call Placeholder, Call Placeholder], Some q)
                    | Some e' \<Rightarrow> (fst s5 @ [Call Placeholder, Call Placeholder], None)))))
     = filter (\<lambda>ev. ev = Post) (fst s5)"
  "snd (if snd s5 then (fst s5, Some q)
            else (case f of
                 None \<Rightarrow> (fst s5 @ [Call Placeholder], Some q)
               | Some e \<Rightarrow>
                   (case r of
                      None \<Rightarrow> (fst s5 @ [Call Placeholder, Call Placeholder], Some q)
                    | Some e' \<Rightarrow> (fst s5 @ [Call Placeholder, Call Placeholder], None)))) = None
   \<or> snd (if snd s5 then (fst s5, Some q)
            else (case f of
                 None \<Rightarrow> (fst s5 @ [Call Placeholder], Some q)
               | Some e \<Rightarrow>
                   (case r of
                      None \<Rightarrow> (fst s5 @ [Call Placeholder, Call Placeholder], Some q)
                    | Some e' \<Rightarrow> (fst s5 @ [Call Placeholder, Call Placeholder], None)))) = Some q"
  by (auto split: option.splits)

lemma chain_unfold:
  "chain env = (if has_key env Pexels then [Pexels] else []) @ [Unsplash]
     @ (if has_key env HuggingFace then [HuggingFace] else [])
     @ (if has_key env Stability then [Stability] else [])
     @ (if has_key env DallE then [DallE] else [])"
  by (simp add: chain_def enabled_def)

lemma resolve_trace:
  assumes a1: "has_key env Pexels \<longrightarrow> fetch env Pexels i \<noteq> None"
    and a2: "fetch env Unsplash i \<noteq> None"
    and a3: "has_key env HuggingFace \<longrightarrow> snd (generate_with_huggingface env i) \<noteq> None"
  shows "fst (resolve_image env i) =
           concat (map (\<lambda>p. Call p # (if p = HuggingFace then fst (generate_with_huggingface env i) else []))
                    (chain env))
           @ (if fetch env Placeholder i = None then [Call Placeholder]
              else [Call Placeholder, Call Placeholder])
       \<and> snd (resolve_image env i) =
           (if fetch env Placeholder i = None \<or> placeholder_retry env i = None
            then Some (image_path env i) else None)"
proof -
  define s1 where "s1 = attempt (has_key env Pexels) Pexels ([], fetch env Pexels i) ([], False)"
  define s2 where "s2 = attempt True Unsplash ([], fetch env Unsplash i) s1"
  define s3 where "s3 = attempt (has_key env HuggingFace) HuggingFace (generate_with_huggingface env i) s2"
  define s4 where "s4 = attempt (has_key env Stability) Stability
                 ([], Some (NameError ''generate_with_stability'')) s3"
  define s5 where "s5 = attempt (has_key env DallE) DallE
                 ([], Some (NameError ''generate_with_dalle'')) s4"
  have 1: "\<not> snd s1" "fst s1 = (if has_key env Pexels then [Call Pexels] else [])"
    unfolding s1_def using attempt_failed[of "([], False)" "has_key env Pexels" "([], fetch env Pexels i)" Pexels] a1
    by simp_all
  have 2: "\<not> snd s2" "fst s2 = fst s1 @ [Call Unsplash]"
    unfolding s2_def using attempt_failed[OF 1(1), of True "([], fetch env Unsplash i)" Unsplash] a2
    by simp_all
  have 3: "\<not> snd s3" "fst s3 = fst s2 @ (if has_key env HuggingFace
              then Call HuggingFace # fst (generate_with_huggingface env i) else [])"
    unfolding s3_def using attempt_failed[OF 2(1), of "has_key env HuggingFace" "generate_with_huggingface env i" HuggingFace] a3
    by simp_all
  have 4: "\<not> snd s4" "fst s4 = fst s3 @ (if has_key env Stability then [Call Stability] else [])"
    unfolding s4_def using attempt_failed[OF 3(1), of "has_key env Stability" "([], Some (NameError ''generate_with_stability''))" Stability]
    by simp_all
  have 5: "\<not> snd s5" "fst s5 = fst s4 @ (if has_key env DallE then [Call DallE] else [])"
    unfolding s5_def using attempt_failed[OF 4(1), of "has_key env DallE" "([], Some (NameError ''generate_with_dalle''))" DallE]
    by simp_all
  have c: "fst s5 = concat (map (\<lambda>p. Call p # (if p = HuggingFace then fst (generate_with_huggingface env i) else []))
                    (chain env))"
    unfolding 5(2) 4(2) 3(2) 2(2) 1(2) chain_unfold by simp
  have r: "resolve_image env i =
      (if snd s5 then (fst s5, Some (image_path env i))
         else (case fetch env Placeholder i of
                 None \<Rightarrow> (fst s5 @ [Call Placeholder], Some (image_path env i))
               | Some e \<Rightarrow>
                   (case placeholder_retry env i of
                      None \<Rightarrow> (fst s5 @ [Call Placeholder, Call Placeholder], Some (image_path env i))
                    | Some e' \<Rightarrow> (fst s5 @ [Call Placeholder, Call Placeholder], None))))"
    unfolding resolve_image_def Let_def s5_def s4_def s3_def s2_def s1_def ..
  show ?thesis unfolding r
    using placeholder_tail[OF 5(1), where q = "image_path env i" and f = "fetch env Placeholder i"
        and r = "placeholder_retry env i"] c
    by simp
qed

lemma calls_chain:
  "calls (concat (map (\<lambda>p. Call p # (if p = HuggingFace then fst (generate_with_huggingface env i) else [])) ps))
     = ps"
  using hf_events[of env i] by (induction ps) (simp_all add: calls_Cons calls_append)

lemma resolve_calls:
  assumes "has_key env Pexels \<longrightarrow> fetch env Pexels i \<noteq> None"
    and "fetch env Unsplash i \<noteq> None"
    and "has_key env HuggingFace \<longrightarrow> snd (generate_with_huggingface env i) \<noteq> None"
  shows "calls (fst (resolve_image env i)) =
           chain env @ (if fetch env Placeholder i = None then [Placeholder]
                        else [Placeholder, Placeholder])"
proof -
  from resolve_trace[OF assms] have "fst (resolve_image env i) =
           concat (map (\<lambda>p. Call p # (if p = HuggingFace then fst (generate_with_huggingface env i) else []))
                    (chain env))
           @ (if fetch env Placeholder i = None then [Call Placeholder]
              else [Call Placeholder, Call Placeholder])" by blast
  then show ?thesis by (simp add: calls_append calls_chain calls_Cons)
qed

lemma attempt_events:
  "set (fst (attempt en p call st)) \<subseteq> set (fst st) \<union> {Call p} \<union> set (fst call)"
  "filter (\<lambda>ev. ev = Post) (fst (attempt en p call st))
     = filter (\<lambda>ev. ev = Post) (fst st) @ (if snd st \<or> \<not> en then [] else filter (\<lambda>ev. ev = Post) (fst call))"
  by (auto simp: attempt_def)

lemma resolve_events:
  "set (fst (resolve_image env i)) \<subseteq>
     {Call Pexels, Call Unsplash, Call HuggingFace, Call Stability, Call DallE, Call Placeholder}
       \<union> set (fst (generate_with_huggingface env i))"
  and resolve_result:
  "snd (resolve_image env i) = None \<or> snd (resolve_image env i) = Some (image_path env i)"
proof -
  define s1 where "s1 = attempt (has_key env Pexels) Pexels ([], fetch env Pexels i) ([], False)"
  define s2 where "s2 = attempt True Unsplash ([], fetch env Unsplash i) s1"
  define s3 where "s3 = attempt (has_key env HuggingFace) HuggingFace (generate_with_huggingface env i) s2"
  define s4 where "s4 = attempt (has_key env Stability) Stability
                 ([], Some (NameError ''generate_with_stability'')) s3"
  define s5 where "s5 = attempt (has_key env DallE) DallE
                 ([], Some (NameError ''generate_with_dalle'')) s4"
  let ?U = "{Call Pexels, Call Unsplash, Call HuggingFace, Call Stability, Call DallE, Call Placeholder}
       \<union> set (fst (generate_with_huggingface env i))"
  have 1: "set (fst s1) \<subseteq> ?U" unfolding s1_def using attempt_events(1)[of "has_key env Pexels" Pexels "([], fetch env Pexels i)" "([], False)"] by auto
  have 2: "set (fst s2) \<subseteq> ?U" unfolding s2_def using attempt_events(1)[of True Unsplash "([], fetch env Unsplash i)" s1] 1 by auto
  have 3: "set (fst s3) \<subseteq> ?U" unfolding s3_def using attempt_events(1)[of "has_key env HuggingFace" HuggingFace "generate_with_huggingface env i" s2] 2 by auto
  have 4: "set (fst s4) \<subseteq> ?U" unfolding s4_def using attempt_events(1)[of "has_key env Stability" Stability "([], Some (NameError ''generate_with_stability''))" s3] 3 by auto
  have 5: "set (fst s5) \<subseteq> ?U" unfolding s5_def using attempt_events(1)[of "has_key env DallE" DallE "([], Some (NameError ''generate_with_dalle''))" s4] 4 by auto
  have q: "resolve_image env i =
      (if snd s5 then (fst s5, Some (image_path env i))
         else (case fetch env Placeholder i of
                 None \<Rightarrow> (fst s5 @ [Call Placeholder], Some (image_path env i))
               | Some e \<Rightarrow>
                   (case placeholder_retry env i of
                      None \<Rightarrow> (fst s5 @ [Call Placeholder, Call Placeholder], Some (image_path env i))
                    | Some e' \<Rightarrow> (fst s5 @ [Call Placeholder, Call Placeholder], None))))"
    unfolding resolve_image_def Let_def s5_def s4_def s3_def s2_def s1_def ..
  have r: "set (fst (resolve_image env i)) \<subseteq> set (fst s5) \<union> {Call Placeholder}"
    unfolding q by (rule placeholder_tail_events(1))
  show "set (fst (resolve_image env i)) \<subseteq> ?U" using r 5 by blast
  show "snd (resolve_image env i) = None \<or> snd (resolve_image env i) = Some (image_path env i)"
    unfolding q by (rule placeholder_tail_events(3))
qed

lemma resolve_sleeps: "Sleep n \<in> set (fst (resolve_image env i)) \<Longrightarrow> n = 20"
  using resolve_events[of env i] hf_events[of env i] by auto

lemma resolve_posts:
  "length (filter (\<lambda>ev. ev = Post) (fst (resolve_image env i))) \<le> max_retries"
proof -
  define s1 where "s1 = attempt (has_key env Pexels) Pexels ([], fetch env Pexels i) ([], False)"
  define s2 where "s2 = attempt True Unsplash ([], fetch env Unsplash i) s1"
  define s3 where "s3 = attempt (has_key env HuggingFace) HuggingFace (generate_with_huggingface env i) s2"
  define s4 where "s4 = attempt (has_key env Stability) Stability
                 ([], Some (NameError ''generate_with_stability'')) s3"
  define s5 where "s5 = attempt (has_key env DallE) DallE
                 ([], Some (NameError ''generate_with_dalle'')) s4"
  let ?P = "\<lambda>evs. filter (\<lambda>ev. ev = Post) evs"
  have 1: "?P (fst s1) = []" unfolding s1_def attempt_events(2) by simp
  have 2: "?P (fst s2) = []" unfolding s2_def attempt_events(2) 1 by simp
  have 3: "length (?P (fst s3)) \<le> max_retries" unfolding s3_def attempt_events(2) 2
    using hf_events[of env i] by simp
  have 4: "?P (fst s4) = ?P (fst s3)" unfolding s4_def attempt_events(2) by simp
  have 5: "?P (fst s5) = ?P (fst s4)" unfolding s5_def attempt_events(2) by simp
  have q: "resolve_image env i =
      (if snd s5 then (fst s5, Some (image_path env i))
         else (case fetch env Placeholder i of
                 None \<Rightarrow> (fst s5 @ [Call Placeholder], Some (image_path env i))
               | Some e \<Rightarrow>
                   (case placeholder_retry env i of
                      None \<Rightarrow> (fst s5 @ [Call Placeholder, Call Placeholder], Some (image_path env i))
                    | Some e' \<Rightarrow> (fst s5 @ [Call Placeholder, Call Placeholder], None))))"
    unfolding resolve_image_def Let_def s5_def s4_def s3_def s2_def s1_def ..
  have r: "?P (fst (resolve_image env i)) = ?P (fst s5)"
    unfolding q by (rule placeholder_tail_events(2))
  show ?thesis unfolding r 5 4 by (rule 3)
qed

lemma images_loop_eq:
  "images_loop env is =
     (concat (map (\<lambda>i. fst (resolve_image env i)) is),
      concat (map (\<lambda>i. case snd (resolve_image env i) of None \<Rightarrow> [] | Some p \<Rightarrow> [p]) is))"
  by (induction "is") simp_all

lemma generate_images_eq:
  "fst (generate_images env count) = concat (map (\<lambda>i. fst (resolve_image env i)) [0..<count])"
  "snd (generate_images env count) =
     Inr (concat (map (\<lambda>i. case snd (resolve_image env i) of None \<Rightarrow> [] | Some p \<Rightarrow> [p]) [0..<count]))"
  by (simp_all add: generate_images_def images_loop_eq)


text \<open>
  Claim C4, as amended. When every enabled provider raises for an image, the steps taken
  are the calls of the enabled providers in the order Pexels, Unsplash, Hugging Face,
  Stability, DALL-E, each once, the Hugging Face call followed by its requests, and then
  the placeholder (twice when its first call raises); the image is obtained when a
  placeholder call returns and skipped otherwise. A Hugging Face call posts between 1
  and 3 requests, one after the other while the response is a 503, and sleeps 20 seconds
  after each 503 and at no other time; it raises the exception of its last request, or
  an exception of its own when that request is answered by a status other than 200 and
  503. \<open>generate_images\<close> resolves the images
  \<open>0\<close> to \<open>count - 1\<close> in order and returns the paths of those it obtained: no
  exception leaves it.
\<close>

theorem provider_chain_all_failing:
  "((has_key env Pexels \<longrightarrow> fetch env Pexels i \<noteq> None)
     \<and> fetch env Unsplash i \<noteq> None
     \<and> (has_key env HuggingFace \<longrightarrow> snd (generate_with_huggingface env i) \<noteq> None) \<longrightarrow>
       fst (resolve_image env i) =
         concat (map (\<lambda>p. Call p # (if p = HuggingFace then fst (generate_with_huggingface env i) else []))
                  (chain env))
         @ (if fetch env Placeholder i = None then [Call Placeholder]
            else [Call Placeholder, Call Placeholder])
     \<and> calls (fst (resolve_image env i)) =
         chain env @ (if fetch env Placeholder i = None then [Placeholder]
                      else [Placeholder, Placeholder])
     \<and> snd (resolve_image env i) =
         (if fetch env Placeholder i = None \<or> placeholder_retry env i = None
          then Some (image_path env i) else None))
   \<and> chain env = (if has_key env Pexels then [Pexels] else []) @ [Unsplash]
       @ (if has_key env HuggingFace then [HuggingFace] else [])
       @ (if has_key env Stability then [Stability] else [])
       @ (if has_key env DallE then [DallE] else [])
   \<and> (has_key env HuggingFace \<longrightarrow>
        fst (generate_with_huggingface env i) =
          concat (map (\<lambda>k. if hf_post env i k = Status 503 then [Post, Sleep 20] else [Post])
                   [0..<posts (fst (generate_with_huggingface env i))])
      \<and> posts (fst (generate_with_huggingface env i)) \<le> 3
      \<and> (\<forall>k. Suc k < posts (fst (generate_with_huggingface env i)) \<longrightarrow>
             hf_post env i k = Status 503)
      \<and> 0 < posts (fst (generate_with_huggingface env i))
      \<and> (posts (fst (generate_with_huggingface env i)) < 3 \<longrightarrow>
           hf_post env i (posts (fst (generate_with_huggingface env i)) - 1) \<noteq> Status 503)
      \<and> (case hf_post env i (posts (fst (generate_with_huggingface env i)) - 1) of
            Raised e \<Rightarrow> snd (generate_with_huggingface env i) = Some e
          | Status c \<Rightarrow>
              (c = 200 \<longrightarrow> snd (generate_with_huggingface env i) = hf_save env i) \<and>
              (c \<noteq> 200 \<and> c \<noteq> 503 \<longrightarrow>
                 snd (generate_with_huggingface env i)
                   = Some (OtherError ''API returned status code''))))
   \<and> length (filter (\<lambda>ev. ev = Post) (fst (resolve_image env i))) \<le> 3
   \<and> (\<forall>n. Sleep n \<in> set (fst (resolve_image env i)) \<longrightarrow> n = 20)
   \<and> (snd (resolve_image env i) = None \<or> snd (resolve_image env i) = Some (image_path env i))
   \<and> fst (generate_images env count) = concat (map (\<lambda>j. fst (resolve_image env j)) [0..<count])
   \<and> snd (generate_images env count) =
       Inr (concat (map (\<lambda>j. case snd (resolve_image env j) of None \<Rightarrow> [] | Some p \<Rightarrow> [p])
                     [0..<count]))"
proof (intro conjI impI allI)
  assume h: "(has_key env Pexels \<longrightarrow> fetch env Pexels i \<noteq> None)
     \<and> fetch env Unsplash i \<noteq> None
     \<and> (has_key env HuggingFace \<longrightarrow> snd (generate_with_huggingface env i) \<noteq> None)"
  then have r: "fst (resolve_image env i) =
           concat (map (\<lambda>p. Call p # (if p = HuggingFace then fst (generate_with_huggingface env i) else []))
                    (chain env))
           @ (if fetch env Placeholder i = None then [Call Placeholder]
              else [Call Placeholder, Call Placeholder])
       \<and> snd (resolve_image env i) =
           (if fetch env Placeholder i = None \<or> placeholder_retry env i = None
            then Some (image_path env i) else None)"
    by (intro resolve_trace) simp_all
  from r show "fst (resolve_image env i) =
         concat (map (\<lambda>p. Call p # (if p = HuggingFace then fst (generate_with_huggingface env i) else []))
                  (chain env))
         @ (if fetch env Placeholder i = None then [Call Placeholder]
            else [Call Placeholder, Call Placeholder])" ..
  from r show "snd (resolve_image env i) =
         (if fetch env Placeholder i = None \<or> placeholder_retry env i = None
          then Some (image_path env i) else None)" ..
  from h show "calls (fst (resolve_image env i)) =
         chain env @ (if fetch env Placeholder i = None then [Placeholder]
                      else [Placeholder, Placeholder])"
    by (intro resolve_calls) simp_all
next
  show "chain env = (if has_key env Pexels then [Pexels] else []) @ [Unsplash]
       @ (if has_key env HuggingFace then [HuggingFace] else [])
       @ (if has_key env Stability then [Stability] else [])
       @ (if has_key env DallE then [DallE] else [])"
    by (rule chain_unfold)
next
  assume k: "has_key env HuggingFace"
  note l = hf_log[OF k, of i]
  from l show "fst (generate_with_huggingface env i) =
          concat (map (\<lambda>k. if hf_post env i k = Status 503 then [Post, Sleep 20] else [Post])
                   [0..<posts (fst (generate_with_huggingface env i))])" by blast
  from l show "posts (fst (generate_with_huggingface env i)) \<le> 3" by blast
  from l show "0 < posts (fst (generate_with_huggingface env i))" by blast
  from l show "hf_post env i (posts (fst (generate_with_huggingface env i)) - 1) \<noteq> Status 503"
    if "posts (fst (generate_with_huggingface env i)) < 3" using that by blast
  from l show "hf_post env i k = Status 503"
    if "Suc k < posts (fst (generate_with_huggingface env i))" for k using that by blast
  show "case hf_post env i (posts (fst (generate_with_huggingface env i)) - 1) of
            Raised e \<Rightarrow> snd (generate_with_huggingface env i) = Some e
          | Status c \<Rightarrow>
              (c = 200 \<longrightarrow> snd (generate_with_huggingface env i) = hf_save env i) \<and>
              (c \<noteq> 200 \<and> c \<noteq> 503 \<longrightarrow>
                 snd (generate_with_huggingface env i)
                   = Some (OtherError ''API returned status code''))"
    using k by (rule hf_result)
next
  show "length (filter (\<lambda>ev. ev = Post) (fst (resolve_image env i))) \<le> 3"
    using resolve_posts[of env i] by (simp add: max_retries_def)
next
  fix n assume "Sleep n \<in> set (fst (resolve_image env i))"
  then show "n = 20" by (rule resolve_sleeps)
next
  show "snd (resolve_image env i) = None \<or> snd (resolve_image env i) = Some (image_path env i)"
    by (rule resolve_result)
  show "fst (generate_images env count) = concat (map (\<lambda>j. fst (resolve_image env j)) [0..<count])"
    by (rule generate_images_eq(1))
  show "snd (generate_images env count) =
       Inr (concat (map (\<lambda>j. case snd (resolve_image env j) of None \<Rightarrow> [] | Some p \<Rightarrow> [p])
                     [0..<count]))"
    by (rule generate_images_eq(2))
qed

lemma demo_hf:
  "generate_with_huggingface all_failing_env 0
     = ([Post, Sleep 20, Post, Sleep 20, Post], Some (OtherError ''API returned status code''))"
  by (simp add: generate_with_huggingface_def max_retries_def all_failing_env_def numeral_3_eq_3)

text \<open>
  Claim C4 as stated fails: with every key set and every provider and the placeholder
  raising, the call for one image tries the five providers and the placeholder twice,
  and then returns the empty list instead of raising.
\<close>

theorem provider_chain_counterexample:
  "generate_images all_failing_env 1 =
     ([Call Pexels, Call Unsplash, Call HuggingFace, Post, Sleep 20, Post, Sleep 20, Post,
       Call Stability, Call DallE, Call Placeholder, Call Placeholder], Inr [])"
proof -
  have "resolve_image all_failing_env 0 =
     ([Call Pexels, Call Unsplash, Call HuggingFace, Post, Sleep 20, Post, Sleep 20, Post,
       Call Stability, Call DallE, Call Placeholder, Call Placeholder], None)"
    unfolding resolve_image_def Let_def attempt_def demo_hf
    by (simp add: all_failing_env_def)
  then show ?thesis by (simp add: generate_images_def)
qed

theorem provider_chain_all_failing_witness:
  "fetch all_failing_env Pexels 0 \<noteq> None \<and> fetch all_failing_env Unsplash 0 \<noteq> None
   \<and> snd (generate_with_huggingface all_failing_env 0) \<noteq> None
   \<and> fst (resolve_image all_failing_env 0)
       = [Call Pexels, Call Unsplash, Call HuggingFace, Post, Sleep 20, Post, Sleep 20, Post,
          Call Stability, Call DallE, Call Placeholder, Call Placeholder]
   \<and> calls (fst (resolve_image all_failing_env 0))
       = [Pexels, Unsplash, HuggingFace, Stability, DallE, Placeholder, Placeholder]
   \<and> snd (resolve_image all_failing_env 0) = None
   \<and> posts (fst (generate_with_huggingface all_failing_env 0)) = 3
   \<and> hf_post all_failing_env 0 1 = Status 503
   \<and> fetch placeholder_env Unsplash 0 \<noteq> None \<and> fetch placeholder_env Unsplash 1 \<noteq> None
   \<and> generate_images placeholder_env 2
       = ([Call Unsplash, Call Placeholder, Call Unsplash, Call Placeholder],
          Inr [''assets/image_1.png'', ''assets/image_2.png''])"
proof -
  have a1: "fetch all_failing_env Pexels 0 \<noteq> None" and a2: "fetch all_failing_env Unsplash 0 \<noteq> None"
    by (simp_all add: all_failing_env_def)
  have b: "snd (generate_with_huggingface all_failing_env 0) \<noteq> None" by (simp add: demo_hf)
  have c: "chain all_failing_env = [Pexels, Unsplash, HuggingFace, Stability, DallE]"
    by (simp add: chain_def enabled_def all_failing_env_def)
  have d1: "fetch all_failing_env Placeholder 0 \<noteq> None"
    and d2: "placeholder_retry all_failing_env 0 \<noteq> None"
    by (simp_all add: all_failing_env_def)
  have k: "has_key all_failing_env HuggingFace" by (simp add: all_failing_env_def)
  have p3: "posts (fst (generate_with_huggingface all_failing_env 0)) = 3"
    by (simp add: demo_hf posts_def)
  have h: "(has_key all_failing_env Pexels \<longrightarrow> fetch all_failing_env Pexels 0 \<noteq> None)
     \<and> fetch all_failing_env Unsplash 0 \<noteq> None
     \<and> (has_key all_failing_env HuggingFace \<longrightarrow> snd (generate_with_huggingface all_failing_env 0) \<noteq> None)"
    using a1 a2 b by blast
  note t = provider_chain_all_failing[of all_failing_env 0 1]
  from t h have r0: "fst (resolve_image all_failing_env 0) =
         concat (map (\<lambda>p. Call p # (if p = HuggingFace then fst (generate_with_huggingface all_failing_env 0) else []))
                  (chain all_failing_env))
         @ (if fetch all_failing_env Placeholder 0 = None then [Call Placeholder]
            else [Call Placeholder, Call Placeholder])" by blast
  have r1: "fst (resolve_image all_failing_env 0)
       = [Call Pexels, Call Unsplash, Call HuggingFace, Post, Sleep 20, Post, Sleep 20, Post,
          Call Stability, Call DallE, Call Placeholder, Call Placeholder]"
    unfolding r0 c demo_hf using d1 by simp
  from t h have "calls (fst (resolve_image all_failing_env 0)) =
         chain all_failing_env @ (if fetch all_failing_env Placeholder 0 = None then [Placeholder]
                      else [Placeholder, Placeholder])" by blast
  then have r2: "calls (fst (resolve_image all_failing_env 0))
       = [Pexels, Unsplash, HuggingFace, Stability, DallE, Placeholder, Placeholder]"
    unfolding c using d1 by simp
  from t h have "snd (resolve_image all_failing_env 0) =
         (if fetch all_failing_env Placeholder 0 = None \<or> placeholder_retry all_failing_env 0 = None
          then Some (image_path all_failing_env 0) else None)" by blast
  then have r3: "snd (resolve_image all_failing_env 0) = None" using d1 d2 by simp
  have s1: "Suc 1 < posts (fst (generate_with_huggingface all_failing_env 0))" unfolding p3 by simp
  from t k have "\<forall>k. Suc k < posts (fst (generate_with_huggingface all_failing_env 0)) \<longrightarrow>
             hf_post all_failing_env 0 k = Status 503" by blast
  with s1 have r4: "hf_post all_failing_env 0 1 = Status 503" by blast
  have e0: "fetch placeholder_env Unsplash 0 \<noteq> None" and e1: "fetch placeholder_env Unsplash 1 \<noteq> None"
    by (simp_all add: placeholder_env_def)
  have nk: "\<not> has_key placeholder_env p" for p by (simp add: placeholder_env_def)
  have pc: "chain placeholder_env = [Unsplash]" by (simp add: chain_def enabled_def placeholder_env_def)
  have pf: "fetch placeholder_env Placeholder j = None" for j by (simp add: placeholder_env_def)
  have pr: "fst (resolve_image placeholder_env j) = [Call Unsplash, Call Placeholder]
      \<and> snd (resolve_image placeholder_env j) = Some (image_path placeholder_env j)" if "j < 2" for j
  proof -
    have f: "fetch placeholder_env Unsplash j \<noteq> None" by (simp add: placeholder_env_def)
    have hj: "(has_key placeholder_env Pexels \<longrightarrow> fetch placeholder_env Pexels j \<noteq> None)
       \<and> fetch placeholder_env Unsplash j \<noteq> None
       \<and> (has_key placeholder_env HuggingFace \<longrightarrow> snd (generate_with_huggingface placeholder_env j) \<noteq> None)"
      using f nk by blast
    from provider_chain_all_failing[of placeholder_env j 2] hj
    have x: "fst (resolve_image placeholder_env j) =
         concat (map (\<lambda>p. Call p # (if p = HuggingFace then fst (generate_with_huggingface placeholder_env j) else []))
                  (chain placeholder_env))
         @ (if fetch placeholder_env Placeholder j = None then [Call Placeholder]
            else [Call Placeholder, Call Placeholder])"
      and y: "snd (resolve_image placeholder_env j) =
         (if fetch placeholder_env Placeholder j = None \<or> placeholder_retry placeholder_env j = None
          then Some (image_path placeholder_env j) else None)" by blast+
    show ?thesis unfolding x y pc using pf by simp
  qed
  have u2: "[0..<2] = [0, Suc 0]" by (simp add: upt_rec numeral_2_eq_2)
  from provider_chain_all_failing[of placeholder_env 0 2]
  have g1: "fst (generate_images placeholder_env 2) = concat (map (\<lambda>j. fst (resolve_image placeholder_env j)) [0..<2])"
    and g2: "snd (generate_images placeholder_env 2) =
       Inr (concat (map (\<lambda>j. case snd (resolve_image placeholder_env j) of None \<Rightarrow> [] | Some p \<Rightarrow> [p])
                     [0..<2]))" by blast+
  have g: "generate_images placeholder_env 2
       = ([Call Unsplash, Call Placeholder, Call Unsplash, Call Placeholder],
          Inr [''assets/image_1.png'', ''assets/image_2.png''])"
  proof (rule prod_eqI)
    show "fst (generate_images placeholder_env 2)
       = fst ([Call Unsplash, Call Placeholder, Call Unsplash, Call Placeholder],
          Inr [''assets/image_1.png'', ''assets/image_2.png''] :: exn + path list)"
      unfolding g1 u2 using pr[of 0] pr[of "Suc 0"] by simp
    show "snd (generate_images placeholder_env 2)
       = snd ([Call Unsplash, Call Placeholder, Call Unsplash, Call Placeholder],
          Inr [''assets/image_1.png'', ''assets/image_2.png''] :: exn + path list)"
      unfolding g2 u2 using pr[of 0] pr[of "Suc 0"] by (simp add: placeholder_env_def)
  qed
  from a1 a2 b r1 r2 r3 p3 r4 e0 e1 g show ?thesis by blast
qed

end
